theory Spec2Isabelle
  imports Complex_Main "HOL-Library.Char_ord" "HOL-Library.List_Lexorder"
begin

section \<open>The evaluator of the AlphaZero pipeline (src/alphazero/evaluator.py)\<close>

text \<open>
  The evaluator receives candidate models, plays them against the current model, and on
  acceptance publishes the candidate through the shared variables, waits for the workers and
  archives the model. The methods of \<open>Evaluator\<close> are modelled as functions that take the
  state of the program and return it, so that every write of a method is visible in its
  result. Python ints are \<open>int\<close>, a Python float is the rational number it stands for, and
  the variable \<open>action\<close>, which may hold Python's \<open>None\<close>, is an option. The parameter
  \<open>current_model\<close> of \<open>evaluate\<close> is written \<open>old_model\<close>, since \<open>current_model\<close> is the
  field of the evaluator.
\<close>

subsection \<open>Collaborators\<close>

text \<open>
  The game, the two translators and the network are collaborators of the evaluator, taken
  here as parameters with the method names of the source. A call of a collaborator may
  depend on and change the state of the collaborators, the \<open>world\<close> of type \<open>'w\<close> (the game
  object, the translators, the buffers and the random state of the network), and nothing
  else: section 5 of the specification makes the coordinator the only writer of the model
  slot and of the signals and the workers the only writers of the counters, and section 3
  makes the parameters of a model version immutable.
\<close>

datatype py_error = ZeroDivisionError | OverflowError | FileExistsError | IsADirectoryError

record 'sd module =
  state_dict :: 'sd
  device_of :: string

definition to_device :: "'sd module \<Rightarrow> string \<Rightarrow> 'sd module" where
  "to_device m d = m\<lparr>device_of := d\<rparr>"

definition load_state_dict :: "'sd module \<Rightarrow> 'sd \<Rightarrow> 'sd module" where
  "load_state_dict m sd = m\<lparr>state_dict := sd\<rparr>"

record ('b, 'a, 'w) game =
  getInitBoard :: "'w \<Rightarrow> 'b \<times> 'w"
  getGameEnded :: "'b \<Rightarrow> 'w \<Rightarrow> bool \<times> 'w"
  checkIfValid :: "'b \<Rightarrow> 'a \<Rightarrow> 'w \<Rightarrow> bool \<times> 'w"
  getNextState :: "'b \<Rightarrow> 'a option \<Rightarrow> 'w \<Rightarrow> 'b \<times> 'w"
  getResult :: "'b \<Rightarrow> 'w \<Rightarrow> string \<times> 'w"

record ('b, 't, 'w) board_translator =
  encode :: "'b \<Rightarrow> 'w \<Rightarrow> 't \<times> 'w"

record ('a, 'w) move_translator =
  decode :: "nat \<Rightarrow> 'w \<Rightarrow> 'a \<times> 'w"

text \<open>
  The network: \<open>forward\<close> gives the policy of a model on an encoded board (the value head is
  discarded by the source), \<open>argsort_descending\<close> is \<open>policy.argsort(descending = True).flatten()\<close>.
\<close>

record ('sd, 't, 'p, 'w) torch =
  forward :: "'sd module \<Rightarrow> 't \<Rightarrow> 'w \<Rightarrow> 'p \<times> 'w"
  argsort_descending :: "'p \<Rightarrow> nat list"

record args =
  new_model_queue_timeout :: nat
  num_evaluate_games :: int
  evaluation_threshold :: rat
  accepted_model_path :: string

text \<open>
  The dictionary \<open>shared_variables\<close>. Its keys are the constants of the module \<open>common\<close>,
  taken here as five distinct keys, one field each.
\<close>

record 'sd shared =
  MODEL_STATE_DICT :: 'sd
  SELF_PLAY_SIGNAL :: int
  TRAINING_SIGNAL :: int
  NUM_SELF_PLAY_WORKERS :: int
  NUM_TRAINING_WORKERS :: int

record ('b, 'a, 't, 'sd, 'w) evaluator =
  device :: string
  shared_variables :: "'sd shared"
  current_model :: "'sd module"
  board_translator :: "('b, 't, 'w) board_translator"
  move_translator :: "('a, 'w) move_translator"
  game :: "('b, 'a, 'w) game"
  args :: args

subsection \<open>The state of the program\<close>

text \<open>
  The file system, as far as the program uses it: the directories that exist and the
  contents of the files.
\<close>

record 'sd filesystem =
  dirs :: "string set"
  files :: "string \<rightharpoonup> 'sd"

text \<open>
  The coordinator shares \<open>shared_variables\<close> with the worker processes, so \<open>start\<close> is
  modelled one statement at a time, and the state holds the line the coordinator is at
  beside the evaluator object, the local variables of \<open>start\<close>, the file system, the world
  of the collaborators and the workers.
\<close>

datatype pc =
  L44 | L55 | L57 | L60 | L63 | L64 | L67 | L68 | L71 | L75 | L76 | L79 | L80 | L83
  | Raised py_error

text \<open>
  Modelled from the spec: a worker process, which is not in the source. Section 4.3: a
  worker that observes the signal of its class set reloads the model, then decrements the
  pending counter of its class once, and does not decrement again until it has observed
  the signal cleared. \<open>Observed\<close> is a worker that has seen the signal and has not
  decremented yet, \<open>Updated\<close> one that has decremented.
\<close>

datatype worker = Idle | Observed | Updated

record ('b, 'a, 't, 'sd, 'w) state =
  self :: "('b, 'a, 't, 'sd, 'w) evaluator"
  pc :: pc
  new_model_candidate :: "'sd module"
  num_self_play_workers :: int
  num_training_workers :: int
  fs :: "'sd filesystem"
  world :: 'w
  self_play_workers :: "worker list"
  training_workers :: "worker list"

definition shared :: "('b, 'a, 't, 'sd, 'w) state \<Rightarrow> 'sd shared" where
  "shared s = shared_variables (self s)"

definition set_shared ::
  "('sd shared \<Rightarrow> 'sd shared) \<Rightarrow> ('b, 'a, 't, 'sd, 'w) state \<Rightarrow> ('b, 'a, 't, 'sd, 'w) state" where
  "set_shared upd s = s\<lparr>self := (self s)\<lparr>shared_variables := upd (shared_variables (self s))\<rparr>\<rparr>"

text \<open>A call of a method of a collaborator: it runs on the world and leaves its result.\<close>

definition call ::
  "('w \<Rightarrow> 'r \<times> 'w) \<Rightarrow> ('b, 'a, 't, 'sd, 'w) state \<Rightarrow> 'r \<times> ('b, 'a, 't, 'sd, 'w) state" where
  "call method s = (case method (world s) of (r, w) \<Rightarrow> (r, s\<lparr>world := w\<rparr>))"

subsection \<open>play\_game\<close>

text \<open>
  Lines 137-141: the loop over the ranked indices. \<open>action\<close> starts as \<open>None\<close>, every
  iteration overwrites it with the decoded index, and the loop breaks at the first action the
  game accepts. The loop has no \<open>else\<close> branch: when it runs to the end, \<open>action\<close> keeps
  the last decoded action (or \<open>None\<close> when there was no index).
\<close>

fun choose_action ::
  "'b \<Rightarrow> 'a option \<Rightarrow> nat list \<Rightarrow> ('b, 'a, 't, 'sd, 'w) state
     \<Rightarrow> 'a option \<times> ('b, 'a, 't, 'sd, 'w) state" where
  "choose_action board action [] s = (action, s)"
| "choose_action board action (index # rest) s =
     (case call (decode (move_translator (self s)) index) s of
        (action', s1) \<Rightarrow>
          (case call (checkIfValid (game (self s1)) board action') s1 of
             (valid, s2) \<Rightarrow>
               if valid then (Some action', s2)
               else choose_action board (Some action') rest s2))"

text \<open>Lines 128-144: one turn of the current player.\<close>

definition play_turn ::
  "('sd, 't, 'p, 'w) torch \<Rightarrow> 'b \<Rightarrow> 'sd module \<Rightarrow> ('b, 'a, 't, 'sd, 'w) state
     \<Rightarrow> 'b \<times> ('b, 'a, 't, 'sd, 'w) state" where
  "play_turn T board current_player s =
     (case call (encode (board_translator (self s)) board) s of
        (tensor, s1) \<Rightarrow>
          (case call (forward T current_player tensor) s1 of
             (policy, s2) \<Rightarrow>
               (let sorted_indices = argsort_descending T policy
                in case choose_action board None sorted_indices s2 of
                     (action, s3) \<Rightarrow> call (getNextState (game (self s3)) board action) s3)))"

text \<open>
  Lines 126-147: the loop of the episode. It runs until the game says the board is final;
  a game that never ends is the value \<open>None\<close>.
\<close>

partial_function (option) play_loop ::
  "('sd, 't, 'p, 'w) torch \<Rightarrow> 'b \<Rightarrow> 'sd module \<Rightarrow> 'sd module \<Rightarrow> ('b, 'a, 't, 'sd, 'w) state
     \<Rightarrow> ('b \<times> ('b, 'a, 't, 'sd, 'w) state) option" where
  "play_loop T board current_player next_player s =
     (case call (getGameEnded (game (self s)) board) s of
        (ended, s1) \<Rightarrow>
          if \<not> ended
          then (case play_turn T board current_player s1 of
                  (board', s2) \<Rightarrow> play_loop T board' next_player current_player s2)
          else Some (board, s1))"

definition result_value :: "string \<Rightarrow> int" where
  "result_value result = (if result = ''1-0'' then 1 else if result = ''0-1'' then - 1 else 0)"

definition play_game ::
  "('sd, 't, 'p, 'w) torch \<Rightarrow> 'sd module \<Rightarrow> 'sd module \<Rightarrow> ('b, 'a, 't, 'sd, 'w) state
     \<Rightarrow> (int \<times> ('b, 'a, 't, 'sd, 'w) state) option" where
  "play_game T first_player second_player s =
     (case call (getInitBoard (game (self s))) s of
        (board, s1) \<Rightarrow>
          (case play_loop T board first_player second_player s1 of
             None \<Rightarrow> None
           | Some (board', s2) \<Rightarrow>
               (case call (getResult (game (self s2)) board') s2 of
                  (result, s3) \<Rightarrow> Some (result_value result, s3))))"

subsection \<open>evaluate\<close>

text \<open>
  Lines 96-107: the body of the loop over the games, on the loop variables
  \<open>num_wins\<close>, \<open>first_player\<close> and \<open>second_player\<close> and the state of the program. \<open>play\<close> is
  the call \<open>self.play_game\<close>.
\<close>

definition evaluate_body ::
  "('m \<Rightarrow> 'm \<Rightarrow> 'st \<Rightarrow> (int \<times> 'st) option) \<Rightarrow> int \<Rightarrow> int \<Rightarrow> int \<times> 'm \<times> 'm \<times> 'st
     \<Rightarrow> (int \<times> 'm \<times> 'm \<times> 'st) option" where
  "evaluate_body play halfway_point i st =
     (case st of (num_wins, first_player, second_player, s) \<Rightarrow>
        (case (if i = halfway_point then (second_player, first_player)
               else (first_player, second_player)) of
           (first_player, second_player) \<Rightarrow>
             (case play first_player second_player s of
                None \<Rightarrow> None
              | Some (result, s') \<Rightarrow>
                  Some (if (i < halfway_point \<and> result = - 1) \<or> (i \<ge> halfway_point \<and> result = 1)
                        then num_wins + 1 else num_wins,
                        first_player, second_player, s'))))"

fun evaluate_games ::
  "('m \<Rightarrow> 'm \<Rightarrow> 'st \<Rightarrow> (int \<times> 'st) option) \<Rightarrow> int \<Rightarrow> int list \<Rightarrow> int \<times> 'm \<times> 'm \<times> 'st
     \<Rightarrow> (int \<times> 'm \<times> 'm \<times> 'st) option" where
  "evaluate_games play halfway_point [] st = Some st"
| "evaluate_games play halfway_point (i # rest) st =
     (case evaluate_body play halfway_point i st of
        None \<Rightarrow> None
      | Some st' \<Rightarrow> evaluate_games play halfway_point rest st')"

text \<open>Python's \<open>range(n)\<close>: empty when \<open>n \<le> 0\<close>.\<close>

definition range_py :: "int \<Rightarrow> int list" where
  "range_py n = map int [0..<nat n]"

text \<open>
  Line 110, \<open>num_wins / num_evaluate_games\<close>: the true division of two ints. It raises
  \<open>ZeroDivisionError\<close> on a zero divisor; otherwise the result is the double nearest to the
  quotient (ties to the even significand), and \<open>OverflowError\<close> when that is beyond the
  range of a double. A double is a multiple \<open>m * 2^(e - 52)\<close> with \<open>m < 2^53\<close> and
  \<open>- 1022 \<le> e \<le> 1023\<close>, where \<open>2^e\<close> is the power of two at or below the quotient (and
  \<open>e = - 1022\<close> for the quotients below \<open>2^(- 1022)\<close>). \<open>bit_length\<close> is \<open>int.bit_length\<close>.
\<close>

fun bit_length :: "nat \<Rightarrow> nat" where
  "bit_length n = (if n = 0 then 0 else Suc (bit_length (n div 2)))"

declare bit_length.simps [simp del]

definition pow2 :: "int \<Rightarrow> rat" where
  "pow2 k = (if 0 \<le> k then 2 ^ nat k else 1 / 2 ^ nat (- k))"

definition round_half_even :: "nat \<Rightarrow> nat \<Rightarrow> nat" where
  "round_half_even num den =
     (let q = num div den; r = num mod den
      in if 2 * r < den then q
         else if den < 2 * r then q + 1
         else if even q then q else q + 1)"

definition truediv :: "int \<Rightarrow> int \<Rightarrow> py_error + rat" where
  "truediv a b =
     (if b = 0 then Inl ZeroDivisionError
      else if a = 0 then Inr 0
      else
        let x = nat \<bar>a\<bar>;
            y = nat \<bar>b\<bar>;
            e0 = int (bit_length x) - int (bit_length y);
            e = (if pow2 e0 * of_nat y \<le> of_nat x then e0 else e0 - 1);
            k = 52 - max e (- 1022);
            m = (if 0 \<le> k then round_half_even (x * 2 ^ nat k) y
                 else round_half_even x (y * 2 ^ nat (- k)));
            r = of_nat m * pow2 (- k)
        in if pow2 1024 \<le> r then Inl OverflowError
           else Inr (if (a < 0) = (b < 0) then r else - r))"

text \<open>Line 110: the quotient is compared with the threshold by \<open>>=\<close>.\<close>

definition accept :: "int \<Rightarrow> int \<Rightarrow> rat \<Rightarrow> py_error + bool" where
  "accept num_wins n threshold =
     (case truediv num_wins n of
        Inl e \<Rightarrow> Inl e
      | Inr q \<Rightarrow> Inr (q \<ge> threshold))"

definition evaluate ::
  "('sd, 't, 'p, 'w) torch \<Rightarrow> 'sd module \<Rightarrow> 'sd module \<Rightarrow> ('b, 'a, 't, 'sd, 'w) state
     \<Rightarrow> ((py_error + bool) \<times> ('b, 'a, 't, 'sd, 'w) state) option" where
  "evaluate T old_model new_model s =
     (let halfway_point = num_evaluate_games (args (self s)) div 2
      in case evaluate_games (play_game T) halfway_point
                (range_py (num_evaluate_games (args (self s)))) (0, old_model, new_model, s) of
           None \<Rightarrow> None
         | Some (num_wins, first_player, second_player, s') \<Rightarrow>
             Some (accept num_wins (num_evaluate_games (args (self s')))
                     (evaluation_threshold (args (self s'))),
                   s'))"

subsection \<open>save\_accepted\_model\<close>

text \<open>
  \<open>time.gmtime()\<close> gives the wall-clock time as a \<open>struct_time\<close>, whose smallest field is the
  second. \<open>time.strftime\<close> with the format of line 160, \<open>%Y-%m-%d_%H-%M-%S\<close>: the year in
  decimal, the other fields as two digits, padded with a zero.
\<close>

record struct_time =
  tm_year :: nat
  tm_mon :: nat
  tm_mday :: nat
  tm_hour :: nat
  tm_min :: nat
  tm_sec :: nat

definition digit :: "nat \<Rightarrow> char" where
  "digit d = ''0123456789'' ! d"

fun decimal :: "nat \<Rightarrow> string" where
  "decimal n = (if n < 10 then [digit n] else decimal (n div 10) @ [digit (n mod 10)])"

declare decimal.simps [simp del]

definition pad2 :: "nat \<Rightarrow> string" where
  "pad2 n = (if n < 10 then CHR ''0'' # decimal n else decimal n)"

definition strftime :: "struct_time \<Rightarrow> string" where
  "strftime t =
     decimal (tm_year t) @ ''-'' @ pad2 (tm_mon t) @ ''-'' @ pad2 (tm_mday t) @ ''_'' @
     pad2 (tm_hour t) @ ''-'' @ pad2 (tm_min t) @ ''-'' @ pad2 (tm_sec t)"

text \<open>
  \<open>os.makedirs(name, exist_ok = True)\<close> leaves an existing directory
  alone and raises when the name is taken by a file; \<open>torch.save\<close> writes (or overwrites) the
  file and raises when the name is a directory. \<open>os.path.join\<close> is the POSIX one.
\<close>

definition makedirs :: "string \<Rightarrow> 'sd filesystem \<Rightarrow> py_error + 'sd filesystem" where
  "makedirs name f =
     (if name \<in> dom (files f) then Inl FileExistsError
      else Inr (f\<lparr>dirs := insert name (dirs f)\<rparr>))"

definition torch_save :: "'sd \<Rightarrow> string \<Rightarrow> 'sd filesystem \<Rightarrow> py_error + 'sd filesystem" where
  "torch_save obj file_path f =
     (if file_path \<in> dirs f then Inl IsADirectoryError
      else Inr (f\<lparr>files := (files f)(file_path \<mapsto> obj)\<rparr>))"

definition os_path_join :: "string \<Rightarrow> string \<Rightarrow> string" where
  "os_path_join a b =
     (if b \<noteq> [] \<and> hd b = CHR ''/'' then b
      else if a = [] \<or> last a = CHR ''/'' then a @ b
      else a @ ''/'' @ b)"

text \<open>
  Lines 158-169. The function has no \<open>return\<close> statement, so a call evaluates to Python's
  \<open>None\<close>: the first component of the result is \<open>None\<close>, where a returned path would be
  \<open>Some\<close> of it.
\<close>

definition save_accepted_model ::
  "struct_time \<Rightarrow> string \<Rightarrow> 'sd module \<Rightarrow> 'sd filesystem
     \<Rightarrow> py_error + (string option \<times> 'sd filesystem)" where
  "save_accepted_model gmtime path model f =
     (let now = strftime gmtime;
          file_name = now @ ''.pt'';
          relative_dir = ''../../'' @ path
      in case makedirs relative_dir f of
           Inl e \<Rightarrow> Inl e
         | Inr f1 \<Rightarrow>
             (let file_path = os_path_join relative_dir file_name
              in case torch_save (state_dict model) file_path f1 of
                   Inl e \<Rightarrow> Inl e
                 | Inr f2 \<Rightarrow> Inr (None, f2)))"

subsection \<open>start: the loop of the coordinator\<close>

text \<open>
  What the coordinator reads from outside the program at a step is the input of the step:
  the outcome of \<open>new_model_queue.get\<close> (\<open>None\<close> when \<open>queue.Empty\<close> is raised after the
  timeout) and the clock.
\<close>

record 'sd input =
  queue_get :: "'sd module option"
  gmtime :: struct_time

definition start_step ::
  "('sd, 't, 'p, 'w) torch \<Rightarrow> 'sd input \<Rightarrow> ('b, 'a, 't, 'sd, 'w) state
     \<Rightarrow> ('b, 'a, 't, 'sd, 'w) state" where
  "start_step T inp s =
     (case pc s of
        L44 \<Rightarrow>
          (case queue_get inp of
             None \<Rightarrow> s
           | Some m \<Rightarrow> s\<lparr>new_model_candidate := to_device m (device (self s)), pc := L55\<rparr>)
      | L55 \<Rightarrow>
          (case evaluate T (current_model (self s)) (new_model_candidate s) s of
             None \<Rightarrow> s
           | Some (Inl e, s') \<Rightarrow> s'\<lparr>pc := Raised e\<rparr>
           | Some (Inr accepted, s') \<Rightarrow> if accepted then s'\<lparr>pc := L57\<rparr> else s'\<lparr>pc := L44\<rparr>)
      | L57 \<Rightarrow>
          s\<lparr>self := (self s)\<lparr>current_model :=
                 load_state_dict (current_model (self s)) (state_dict (new_model_candidate s))\<rparr>,
            pc := L60\<rparr>
      | L60 \<Rightarrow>
          (set_shared (\<lambda>v. v\<lparr>MODEL_STATE_DICT := state_dict (new_model_candidate s)\<rparr>) s)
            \<lparr>pc := L63\<rparr>
      | L63 \<Rightarrow> (set_shared (\<lambda>v. v\<lparr>SELF_PLAY_SIGNAL := 1\<rparr>) s)\<lparr>pc := L64\<rparr>
      | L64 \<Rightarrow> (set_shared (\<lambda>v. v\<lparr>TRAINING_SIGNAL := 1\<rparr>) s)\<lparr>pc := L67\<rparr>
      | L67 \<Rightarrow> s\<lparr>num_self_play_workers := NUM_SELF_PLAY_WORKERS (shared s), pc := L68\<rparr>
      | L68 \<Rightarrow> s\<lparr>num_training_workers := NUM_TRAINING_WORKERS (shared s), pc := L71\<rparr>
      | L71 \<Rightarrow>
          (if NUM_SELF_PLAY_WORKERS (shared s) > 0 \<and> NUM_TRAINING_WORKERS (shared s) > 0
           then s
           else s\<lparr>pc := L75\<rparr>)
      | L75 \<Rightarrow> (set_shared (\<lambda>v. v\<lparr>SELF_PLAY_SIGNAL := 0\<rparr>) s)\<lparr>pc := L76\<rparr>
      | L76 \<Rightarrow> (set_shared (\<lambda>v. v\<lparr>TRAINING_SIGNAL := 0\<rparr>) s)\<lparr>pc := L79\<rparr>
      | L79 \<Rightarrow>
          (set_shared (\<lambda>v. v\<lparr>NUM_SELF_PLAY_WORKERS := num_self_play_workers s\<rparr>) s)
            \<lparr>pc := L80\<rparr>
      | L80 \<Rightarrow>
          (set_shared (\<lambda>v. v\<lparr>NUM_TRAINING_WORKERS := num_training_workers s\<rparr>) s)
            \<lparr>pc := L83\<rparr>
      | L83 \<Rightarrow>
          (case save_accepted_model (gmtime inp) (accepted_model_path (args (self s)))
                  (new_model_candidate s) (fs s) of
             Inl e \<Rightarrow> s\<lparr>pc := Raised e\<rparr>
           | Inr (r, f) \<Rightarrow> s\<lparr>fs := f, pc := L44\<rparr>)
      | Raised e \<Rightarrow> s)"

text \<open>
  Modelled from the spec: the steps of the worker processes, which are not in the source
  (section 4.3 and section 5 of the specification). An idle worker looks at the signal of
  its class and, when it is set, reloads the model; its next step is the decrement of the
  pending counter of its class, which is all that is atomic; after that it waits until it
  sees the signal cleared. Between the look at the signal and the decrement the coordinator
  and the other workers may take any number of steps. A worker writes neither the signals
  nor the model. The workers of a class are numbered from 0.
\<close>

definition self_play_worker_step ::
  "nat \<Rightarrow> ('b, 'a, 't, 'sd, 'w) state \<Rightarrow> ('b, 'a, 't, 'sd, 'w) state" where
  "self_play_worker_step i s =
     (if i < length (self_play_workers s) then
        (case self_play_workers s ! i of
           Idle \<Rightarrow>
             if SELF_PLAY_SIGNAL (shared s) \<noteq> 0
             then s\<lparr>self_play_workers := (self_play_workers s)[i := Observed]\<rparr>
             else s
         | Observed \<Rightarrow>
             (set_shared (\<lambda>v. v\<lparr>NUM_SELF_PLAY_WORKERS := NUM_SELF_PLAY_WORKERS v - 1\<rparr>) s)
               \<lparr>self_play_workers := (self_play_workers s)[i := Updated]\<rparr>
         | Updated \<Rightarrow>
             if SELF_PLAY_SIGNAL (shared s) = 0
             then s\<lparr>self_play_workers := (self_play_workers s)[i := Idle]\<rparr>
             else s)
      else s)"

definition training_worker_step ::
  "nat \<Rightarrow> ('b, 'a, 't, 'sd, 'w) state \<Rightarrow> ('b, 'a, 't, 'sd, 'w) state" where
  "training_worker_step i s =
     (if i < length (training_workers s) then
        (case training_workers s ! i of
           Idle \<Rightarrow>
             if TRAINING_SIGNAL (shared s) \<noteq> 0
             then s\<lparr>training_workers := (training_workers s)[i := Observed]\<rparr>
             else s
         | Observed \<Rightarrow>
             (set_shared (\<lambda>v. v\<lparr>NUM_TRAINING_WORKERS := NUM_TRAINING_WORKERS v - 1\<rparr>) s)
               \<lparr>training_workers := (training_workers s)[i := Updated]\<rparr>
         | Updated \<Rightarrow>
             if TRAINING_SIGNAL (shared s) = 0
             then s\<lparr>training_workers := (training_workers s)[i := Idle]\<rparr>
             else s)
      else s)"

text \<open>An execution of the program is a sequence of steps of the coordinator and of workers.\<close>

datatype 'sd event = Coordinator "'sd input" | SelfPlayWorker nat | TrainingWorker nat

fun step ::
  "('sd, 't, 'p, 'w) torch \<Rightarrow> 'sd event \<Rightarrow> ('b, 'a, 't, 'sd, 'w) state
     \<Rightarrow> ('b, 'a, 't, 'sd, 'w) state" where
  "step T (Coordinator inp) s = start_step T inp s"
| "step T (SelfPlayWorker i) s = self_play_worker_step i s"
| "step T (TrainingWorker i) s = training_worker_step i s"

fun run ::
  "('sd, 't, 'p, 'w) torch \<Rightarrow> 'sd event list \<Rightarrow> ('b, 'a, 't, 'sd, 'w) state
     \<Rightarrow> ('b, 'a, 't, 'sd, 'w) state" where
  "run T [] s = s"
| "run T (e # es) s = run T es (step T e s)"

subsection \<open>Times and their file names\<close>

text \<open>
  The fields of a time, most significant first, and the ranges of the fields of a time that
  \<open>time.gmtime\<close> returns, for a year of four digits.
\<close>

definition time_fields :: "struct_time \<Rightarrow> nat list" where
  "time_fields t = [tm_year t, tm_mon t, tm_mday t, tm_hour t, tm_min t, tm_sec t]"

definition gmtime_ranges :: "struct_time \<Rightarrow> bool" where
  "gmtime_ranges t =
     (1000 \<le> tm_year t \<and> tm_year t \<le> 9999 \<and> 1 \<le> tm_mon t \<and> tm_mon t \<le> 12 \<and>
      1 \<le> tm_mday t \<and> tm_mday t \<le> 31 \<and> tm_hour t \<le> 23 \<and> tm_min t \<le> 59 \<and>
      tm_sec t \<le> 61)"

subsection \<open>The tournament in the words of the specification\<close>

text \<open>
  The specification splits the games into two halves: in the first, of \<open>numGames div 2\<close>
  games, the incumbent has the first role and the candidate the second; in the second half,
  of the remaining games, the roles are swapped. A pair is (first role, second role). The
  games are played one after the other, each with the Episode Runner. A game of the first
  half counts for the candidate when the second player wins (result \<open>-1\<close>), a game of the
  second half when the first player wins (result \<open>1\<close>). A game that does not end leaves the
  tournament without a count.
\<close>

definition role_halves_spec :: "int \<Rightarrow> 'm \<Rightarrow> 'm \<Rightarrow> ('m \<times> 'm) list \<times> ('m \<times> 'm) list" where
  "role_halves_spec numGames incumbent candidate =
     (replicate (nat (numGames div 2)) (incumbent, candidate),
      replicate (nat numGames - nat (numGames div 2)) (candidate, incumbent))"

fun play_all_spec ::
  "('m \<Rightarrow> 'm \<Rightarrow> 'st \<Rightarrow> (int \<times> 'st) option) \<Rightarrow> ('m \<times> 'm) list \<Rightarrow> 'st
     \<Rightarrow> (int list \<times> 'st) option" where
  "play_all_spec play [] s = Some ([], s)"
| "play_all_spec play ((first, second) # games) s =
     (case play first second s of
        None \<Rightarrow> None
      | Some (result, s') \<Rightarrow>
          (case play_all_spec play games s' of
             None \<Rightarrow> None
           | Some (results, s'') \<Rightarrow> Some (result # results, s'')))"

definition candidate_wins_spec ::
  "('m \<Rightarrow> 'm \<Rightarrow> 'st \<Rightarrow> (int \<times> 'st) option) \<Rightarrow> int \<Rightarrow> 'm \<Rightarrow> 'm \<Rightarrow> 'st
     \<Rightarrow> (int \<times> 'st) option" where
  "candidate_wins_spec play numGames incumbent candidate s =
     (case role_halves_spec numGames incumbent candidate of
        (first_half, second_half) \<Rightarrow>
          (case play_all_spec play first_half s of
             None \<Rightarrow> None
           | Some (results1, s1) \<Rightarrow>
               (case play_all_spec play second_half s1 of
                  None \<Rightarrow> None
                | Some (results2, s2) \<Rightarrow>
                    Some (int (length (filter (\<lambda>r. r = - 1) results1)) +
                          int (length (filter (\<lambda>r. r = 1) results2)), s2))))"

subsection \<open>Assertions on the states of the coordinator\<close>

text \<open>A state differs from another in the world of the collaborators at most.\<close>

definition same_but_world ::
  "('b, 'a, 't, 'sd, 'w) state \<Rightarrow> ('b, 'a, 't, 'sd, 'w) state \<Rightarrow> bool" where
  "same_but_world s s' = (s' = s\<lparr>world := world s'\<rparr>)"

definition signal_set :: "('b, 'a, 't, 'sd, 'w) state \<Rightarrow> bool" where
  "signal_set s = (SELF_PLAY_SIGNAL (shared s) \<noteq> 0 \<or> TRAINING_SIGNAL (shared s) \<noteq> 0)"

definition published :: "('b, 'a, 't, 'sd, 'w) state \<Rightarrow> bool" where
  "published s = (MODEL_STATE_DICT (shared s) = state_dict (new_model_candidate s))"

definition restored :: "('b, 'a, 't, 'sd, 'w) state \<Rightarrow> bool" where
  "restored s =
     (SELF_PLAY_SIGNAL (shared s) = 0 \<and> TRAINING_SIGNAL (shared s) = 0 \<and>
      NUM_SELF_PLAY_WORKERS (shared s) = num_self_play_workers s \<and>
      NUM_TRAINING_WORKERS (shared s) = num_training_workers s)"

text \<open>What holds at each line of the accept branch, for the order of the writes.\<close>

definition publish_inv :: "('b, 'a, 't, 'sd, 'w) state \<Rightarrow> bool" where
  "publish_inv s =
     (case pc s of
        L63 \<Rightarrow> published s \<and> \<not> signal_set s
      | L64 \<Rightarrow> published s
      | L67 \<Rightarrow> published s
      | L68 \<Rightarrow> published s
      | L71 \<Rightarrow> published s
      | L75 \<Rightarrow> published s
      | L76 \<Rightarrow> published s \<and> SELF_PLAY_SIGNAL (shared s) = 0
      | _ \<Rightarrow> \<not> signal_set s)"

definition in_promotion :: "pc \<Rightarrow> bool" where
  "in_promotion l = (l = L64 \<or> l = L67 \<or> l = L68 \<or> l = L71 \<or> l = L75 \<or> l = L76)"

subsection \<open>Concrete collaborators\<close>

text \<open>
  A game of one move: the board is a number, the only legal action is \<open>1\<close> on the initial
  board, and a move adds the action to the board. The world is the list of the results of
  the games to come, and \<open>getResult\<close> takes the first of them; when the list is empty the
  second player is the winner. The network ranks the index \<open>0\<close> before the index \<open>1\<close>.
\<close>

definition one_move_game :: "(nat, nat, string list) game" where
  "one_move_game =
     \<lparr>getInitBoard = (\<lambda>w. (0, w)),
      getGameEnded = (\<lambda>b w. (b \<noteq> 0, w)),
      checkIfValid = (\<lambda>b a w. (b = 0 \<and> a = 1, w)),
      getNextState = (\<lambda>b a w. (case a of None \<Rightarrow> b | Some k \<Rightarrow> b + k, w)),
      getResult = (\<lambda>b w. case w of [] \<Rightarrow> (''0-1'', []) | r # rest \<Rightarrow> (r, rest))\<rparr>"

definition demo_torch :: "(nat, nat, nat list, string list) torch" where
  "demo_torch = \<lparr>forward = (\<lambda>m t w. ([0, 1], w)), argsort_descending = (\<lambda>p. p)\<rparr>"

definition demo_args :: "int \<Rightarrow> rat \<Rightarrow> args" where
  "demo_args n t =
     \<lparr>new_model_queue_timeout = 1, num_evaluate_games = n, evaluation_threshold = t,
      accepted_model_path = ''accepted''\<rparr>"

definition demo_shared :: "nat shared" where
  "demo_shared =
     \<lparr>MODEL_STATE_DICT = 0, SELF_PLAY_SIGNAL = 0, TRAINING_SIGNAL = 0,
      NUM_SELF_PLAY_WORKERS = 2, NUM_TRAINING_WORKERS = 1\<rparr>"

definition incumbent_model :: "nat module" where
  "incumbent_model = \<lparr>state_dict = 0, device_of = ''cuda''\<rparr>"

definition candidate_model :: "nat module" where
  "candidate_model = \<lparr>state_dict = 1, device_of = ''cuda''\<rparr>"

definition demo_evaluator :: "int \<Rightarrow> rat \<Rightarrow> (nat, nat, nat, nat, string list) evaluator" where
  "demo_evaluator n t =
     \<lparr>device = ''cuda'', shared_variables = demo_shared, current_model = incumbent_model,
      board_translator = \<lparr>encode = (\<lambda>b w. (b, w))\<rparr>,
      move_translator = \<lparr>decode = (\<lambda>i w. (i, w))\<rparr>,
      game = one_move_game, args = demo_args n t\<rparr>"

definition empty_fs :: "nat filesystem" where
  "empty_fs = \<lparr>dirs = {}, files = Map.empty\<rparr>"

text \<open>
  The program at the top of the loop, with two self-play workers and one training worker,
  all idle, and the results of the games to come.
\<close>

definition demo_state :: "int \<Rightarrow> rat \<Rightarrow> string list \<Rightarrow> (nat, nat, nat, nat, string list) state" where
  "demo_state n t results =
     \<lparr>self = demo_evaluator n t, pc = L44, new_model_candidate = incumbent_model,
      num_self_play_workers = 0, num_training_workers = 0, fs = empty_fs,
      world = results, self_play_workers = [Idle, Idle], training_workers = [Idle]\<rparr>"

text \<open>The double nearest to 0.55, the value of the Python literal \<open>0.55\<close>.\<close>

definition float_0_55 :: rat where
  "float_0_55 = 2476979795053773 / 4503599627370496"

text \<open>
  Results of twenty games: the second player wins the first ten and the rest are draws;
  in the second list the first player wins the eleventh game.
\<close>

definition ten_wins :: "string list" where
  "ten_wins =
     [''0-1'', ''0-1'', ''0-1'', ''0-1'', ''0-1'', ''0-1'', ''0-1'', ''0-1'', ''0-1'', ''0-1'',
      ''1/2-1/2'', ''1/2-1/2'', ''1/2-1/2'', ''1/2-1/2'', ''1/2-1/2'',
      ''1/2-1/2'', ''1/2-1/2'', ''1/2-1/2'', ''1/2-1/2'', ''1/2-1/2'']"

definition eleven_wins :: "string list" where
  "eleven_wins =
     [''0-1'', ''0-1'', ''0-1'', ''0-1'', ''0-1'', ''0-1'', ''0-1'', ''0-1'', ''0-1'', ''0-1'',
      ''1-0'', ''1/2-1/2'', ''1/2-1/2'', ''1/2-1/2'', ''1/2-1/2'',
      ''1/2-1/2'', ''1/2-1/2'', ''1/2-1/2'', ''1/2-1/2'', ''1/2-1/2'']"

definition demo_time :: struct_time where
  "demo_time = \<lparr>tm_year = 2023, tm_mon = 4, tm_mday = 9, tm_hour = 7, tm_min = 30, tm_sec = 5\<rparr>"

definition later_time :: struct_time where
  "later_time = \<lparr>tm_year = 2023, tm_mon = 4, tm_mday = 9, tm_hour = 7, tm_min = 30, tm_sec = 6\<rparr>"

definition arrival :: "nat input" where
  "arrival = \<lparr>queue_get = Some (candidate_model\<lparr>device_of := ''cpu''\<rparr>), gmtime = demo_time\<rparr>"

definition timeout :: "nat input" where
  "timeout = \<lparr>queue_get = None, gmtime = demo_time\<rparr>"

text \<open>
  A game whose legality check accepts no action. Its board is the list of the actions that
  were applied; the game ends after one move, and the first player is the winner. The
  network ranks the indices \<open>5\<close> and \<open>7\<close>.
\<close>

definition no_legal_action_game :: "(nat option list, nat, string list) game" where
  "no_legal_action_game =
     \<lparr>getInitBoard = (\<lambda>w. ([], w)),
      getGameEnded = (\<lambda>b w. (b \<noteq> [], w)),
      checkIfValid = (\<lambda>b a w. (False, w)),
      getNextState = (\<lambda>b a w. (b @ [a], w)),
      getResult = (\<lambda>b w. (''1-0'', w))\<rparr>"

definition no_legal_action_state :: "(nat option list, nat, nat, nat, string list) state" where
  "no_legal_action_state =
     \<lparr>self =
        \<lparr>device = ''cuda'', shared_variables = demo_shared, current_model = incumbent_model,
         board_translator = \<lparr>encode = (\<lambda>b w. (length b, w))\<rparr>,
         move_translator = \<lparr>decode = (\<lambda>i w. (i, w))\<rparr>,
         game = no_legal_action_game, args = demo_args 2 (1 / 2)\<rparr>,
      pc = L55, new_model_candidate = candidate_model,
      num_self_play_workers = 0, num_training_workers = 0, fs = empty_fs,
      world = [], self_play_workers = [Idle, Idle], training_workers = [Idle]\<rparr>"

definition stubborn_torch :: "(nat, nat, nat list, string list) torch" where
  "stubborn_torch = \<lparr>forward = (\<lambda>m t w. ([5, 7], w)), argsort_descending = (\<lambda>p. p)\<rparr>"

text \<open>
  Executions of the concrete program: a candidate arrives and is evaluated (and the same
  state for a tournament of twenty games with given results); the events up to the barrier
  wait of line 71; and two continuations from there. In the first the training
  worker acknowledges and no self-play worker does. In the second a self-play worker has
  seen the signal before the training worker acknowledges, and decrements its counter
  after the coordinator has restored the counters.
\<close>

definition evaluating_state :: "int \<Rightarrow> rat \<Rightarrow> (nat, nat, nat, nat, string list) state" where
  "evaluating_state n t = start_step demo_torch arrival (demo_state n t [])"

definition scripted_state :: "rat \<Rightarrow> string list \<Rightarrow> (nat, nat, nat, nat, string list) state" where
  "scripted_state t results =
     (demo_state 20 t results)\<lparr>new_model_candidate := candidate_model, pc := L55\<rparr>"

definition tick :: "nat event" where
  "tick = Coordinator timeout"

definition accept_events :: "nat event list" where
  "accept_events = [Coordinator arrival, tick, tick, tick, tick, tick, tick, tick]"

definition training_only_events :: "nat event list" where
  "training_only_events =
     accept_events @ [tick, TrainingWorker 0, TrainingWorker 0, tick, tick, tick]"

definition late_decrement_events :: "nat event list" where
  "late_decrement_events =
     accept_events @
     [SelfPlayWorker 0, TrainingWorker 0, TrainingWorker 0, tick, tick, tick, tick, tick,
      SelfPlayWorker 0, tick]"

definition archive_fs :: "nat filesystem" where
  "archive_fs =
     \<lparr>dirs = {''../../accepted''},
      files = [''../../accepted/2023-04-09_07-30-05.pt'' \<mapsto> 1]\<rparr>"

section \<open>Properties\<close>

subsection \<open>What the methods leave unchanged\<close>

lemma same_but_world_refl [simp]: "same_but_world s s"
  by (simp add: same_but_world_def)

lemma same_but_world_trans:
  "same_but_world s s1 \<Longrightarrow> same_but_world s1 s2 \<Longrightarrow> same_but_world s s2"
  by (cases s, cases s1, cases s2) (simp add: same_but_world_def)

lemma same_but_world_self: "same_but_world s s' \<Longrightarrow> self s' = self s"
  by (cases s, cases s') (simp add: same_but_world_def)

lemma call_frame: "call method s = (r, s') \<Longrightarrow> same_but_world s s'"
  by (auto simp: call_def same_but_world_def split: prod.splits)

lemma choose_action_frame:
  "choose_action board action indices s = (r, s') \<Longrightarrow> same_but_world s s'"
proof (induction indices arbitrary: action s)
  case Nil
  then show ?case by simp
next
  case (Cons index rest)
  obtain action' s1 where dec: "call (decode (move_translator (self s)) index) s = (action', s1)"
    by (cases "call (decode (move_translator (self s)) index) s")
  obtain valid s2 where chk: "call (checkIfValid (game (self s1)) board action') s1 = (valid, s2)"
    by (cases "call (checkIfValid (game (self s1)) board action') s1")
  have s2: "same_but_world s s2"
    using call_frame [OF dec] call_frame [OF chk] by (rule same_but_world_trans)
  show ?case
  proof (cases valid)
    case True
    then show ?thesis using Cons.prems s2 by (simp add: dec chk)
  next
    case False
    then have "choose_action board (Some action') rest s2 = (r, s')"
      using Cons.prems by (simp add: dec chk)
    then have "same_but_world s2 s'" by (rule Cons.IH)
    then show ?thesis using s2 same_but_world_trans by blast
  qed
qed

lemma play_turn_frame: "play_turn T board player s = (r, s') \<Longrightarrow> same_but_world s s'"
proof -
  assume turn: "play_turn T board player s = (r, s')"
  obtain tensor s1 where enc: "call (encode (board_translator (self s)) board) s = (tensor, s1)"
    by (cases "call (encode (board_translator (self s)) board) s")
  obtain policy s2 where fwd: "call (forward T player tensor) s1 = (policy, s2)"
    by (cases "call (forward T player tensor) s1")
  obtain action s3 where cho:
    "choose_action board None (argsort_descending T policy) s2 = (action, s3)"
    by (cases "choose_action board None (argsort_descending T policy) s2")
  have nxt: "call (getNextState (game (self s3)) board action) s3 = (r, s')"
    using turn by (simp add: play_turn_def enc fwd cho)
  show ?thesis
    using call_frame [OF enc] call_frame [OF fwd] choose_action_frame [OF cho] call_frame [OF nxt]
      same_but_world_trans by blast
qed


lemma play_loop_frame:
  assumes "play_loop T board current_player next_player s = Some (board', s')"
  shows "same_but_world s s'"
proof -
  have "same_but_world s (snd y)"
    if "play_loop T board current_player next_player s = Some y" for y
  proof (rule play_loop.raw_induct
      [where P = "\<lambda>T board c n s y. same_but_world s (snd y)", OF _ that], goal_cases)
    case (1 loop T board c n s y)
    obtain ended s1 where ended: "call (getGameEnded (game (self s)) board) s = (ended, s1)"
      by (cases "call (getGameEnded (game (self s)) board) s")
    note s1 = call_frame [OF ended]
    show ?case
    proof (cases ended)
      case True
      then show ?thesis using 1(2) s1 by (auto simp: ended)
    next
      case False
      obtain board2 s2 where turn: "play_turn T board c s1 = (board2, s2)"
        by (cases "play_turn T board c s1")
      have "loop T board2 n c s2 = Some y"
        using 1(2) False by (simp add: ended turn)
      then have "same_but_world s2 (snd y)" by (rule 1(1))
      then show ?thesis
        using s1 play_turn_frame [OF turn] same_but_world_trans by blast
    qed
  qed
  then show ?thesis using assms by fastforce
qed

lemma play_game_frame:
  assumes "play_game T first_player second_player s = Some (r, s')"
  shows "same_but_world s s'"
proof -
  obtain board s1 where init: "call (getInitBoard (game (self s))) s = (board, s1)"
    by (cases "call (getInitBoard (game (self s))) s")
  obtain board2 s2 where loop: "play_loop T board first_player second_player s1 = Some (board2, s2)"
    using assms by (auto simp: play_game_def init split: option.splits)
  obtain result s3 where res: "call (getResult (game (self s2)) board2) s2 = (result, s3)"
    by (cases "call (getResult (game (self s2)) board2) s2")
  have "s3 = s'"
    using assms by (simp add: play_game_def init loop res)
  then show ?thesis
    using call_frame [OF init] play_loop_frame [OF loop] call_frame [OF res] same_but_world_trans
    by blast
qed

lemma evaluate_games_frame:
  assumes play: "\<And>f g s r s'. play f g s = Some (r, s') \<Longrightarrow> same_but_world s s'"
    and "evaluate_games play h indices (w, f, g, s) = Some (w', f', g', s')"
  shows "same_but_world s s'"
  using assms(2)
proof (induction indices arbitrary: w f g s)
  case Nil
  then show ?case by simp
next
  case (Cons i rest)
  obtain w1 f1 g1 s1 where body: "evaluate_body play h i (w, f, g, s) = Some (w1, f1, g1, s1)"
    using Cons.prems by (cases "evaluate_body play h i (w, f, g, s)") auto
  then have "same_but_world s s1"
    by (auto simp: evaluate_body_def split: if_splits option.splits dest: play)
  moreover have "same_but_world s1 s'"
    using Cons.prems Cons.IH by (simp add: body)
  ultimately show ?case by (rule same_but_world_trans)
qed

lemma evaluate_frame:
  assumes "evaluate T old_model new_model s = Some (r, s')"
  shows "same_but_world s s'"
proof -
  obtain w f g where
    "evaluate_games (play_game T) (num_evaluate_games (args (self s)) div 2)
       (range_py (num_evaluate_games (args (self s)))) (0, old_model, new_model, s) =
     Some (w, f, g, s')"
    using assms by (auto simp: evaluate_def split: option.splits)
  then show ?thesis
    using evaluate_games_frame [where play = "play_game T"] play_game_frame by blast
qed

subsection \<open>The tournament\<close>

lemma evaluate_games_append:
  "evaluate_games play h (xs @ ys) st =
     (case evaluate_games play h xs st of None \<Rightarrow> None | Some st' \<Rightarrow> evaluate_games play h ys st')"
  by (induction xs arbitrary: st) (auto split: option.splits)

lemma evaluate_games_before_swap:
  assumes "\<forall>i\<in>set xs. i < h"
  shows "evaluate_games play h xs (w, f, g, s) =
           (case play_all_spec play (replicate (length xs) (f, g)) s of
              None \<Rightarrow> None
            | Some (results, s') \<Rightarrow>
                Some (w + int (length (filter (\<lambda>r. r = - 1) results)), f, g, s'))"
  using assms
proof (induction xs arbitrary: w s)
  case Nil
  then show ?case by simp
next
  case (Cons i xs)
  then have i: "i < h" and rest: "\<forall>j\<in>set xs. j < h" by simp_all
  show ?case
  proof (cases "play f g s")
    case None
    then show ?thesis using i by (simp add: evaluate_body_def)
  next
    case (Some p)
    obtain r s1 where p: "p = (r, s1)" by (cases p)
    have body: "evaluate_body play h i (w, f, g, s) =
                  Some (if r = - 1 then w + 1 else w, f, g, s1)"
      using i Some p by (simp add: evaluate_body_def)
    show ?thesis
      using Some p by (simp add: body Cons.IH [OF rest] split: option.splits)
  qed
qed

lemma evaluate_games_after_swap:
  assumes "\<forall>i\<in>set xs. h < i"
  shows "evaluate_games play h xs (w, f, g, s) =
           (case play_all_spec play (replicate (length xs) (f, g)) s of
              None \<Rightarrow> None
            | Some (results, s') \<Rightarrow>
                Some (w + int (length (filter (\<lambda>r. r = 1) results)), f, g, s'))"
  using assms
proof (induction xs arbitrary: w s)
  case Nil
  then show ?case by simp
next
  case (Cons i xs)
  then have i: "h < i" and rest: "\<forall>j\<in>set xs. h < j" by simp_all
  show ?case
  proof (cases "play f g s")
    case None
    then show ?thesis using i by (simp add: evaluate_body_def)
  next
    case (Some p)
    obtain r s1 where p: "p = (r, s1)" by (cases p)
    have body: "evaluate_body play h i (w, f, g, s) =
                  Some (if r = 1 then w + 1 else w, f, g, s1)"
      using i Some p by (simp add: evaluate_body_def)
    show ?thesis
      using Some p by (simp add: body Cons.IH [OF rest] split: option.splits)
  qed
qed

lemma evaluate_games_swap:
  assumes "\<forall>i\<in>set xs. h < i"
  shows "evaluate_games play h (h # xs) (w, f, g, s) =
           (case play_all_spec play (replicate (Suc (length xs)) (g, f)) s of
              None \<Rightarrow> None
            | Some (results, s') \<Rightarrow>
                Some (w + int (length (filter (\<lambda>r. r = 1) results)), g, f, s'))"
proof (cases "play g f s")
  case None
  then show ?thesis by (simp add: evaluate_body_def)
next
  case (Some p)
  obtain r s1 where p: "p = (r, s1)" by (cases p)
  have body: "evaluate_body play h h (w, f, g, s) =
                Some (if r = 1 then w + 1 else w, g, f, s1)"
    using Some p by (simp add: evaluate_body_def)
  show ?thesis
    using Some p
    by (simp add: body evaluate_games_after_swap [OF assms] split: option.splits)
qed

lemma range_py_split:
  assumes "0 \<le> h" and "h < n"
  shows "range_py n = range_py h @ h # map int [Suc (nat h)..<nat n]"
proof -
  have "[0..<nat n] = [0..<nat h] @ [nat h..<nat n]"
    using assms by (metis le_add_diff_inverse nat_mono less_imp_le upt_add_eq_append zero_le)
  moreover have "[nat h..<nat n] = nat h # [Suc (nat h)..<nat n]"
    using assms by (simp add: upt_conv_Cons)
  ultimately show ?thesis using assms by (simp add: range_py_def)
qed

lemma evaluate_games_wins:
  "map_option (\<lambda>(w, f, g, s'). (w, s'))
     (evaluate_games play (n div 2) (range_py n) (0, old, new, s)) =
   candidate_wins_spec play n old new s"
proof (cases "1 \<le> n")
  case False
  then have "range_py n = []" and "nat n = 0" and "nat (n div 2) = 0"
    by (simp_all add: range_py_def)
  then show ?thesis by (simp add: candidate_wins_spec_def role_halves_spec_def)
next
  case True
  define h where "h = n div 2"
  have h: "0 \<le> h" "h < n" using True by (simp_all add: h_def)
  have lo: "\<forall>i\<in>set (range_py h). i < h"
    using h by (auto simp: range_py_def)
  have hi: "\<forall>i\<in>set (map int [Suc (nat h)..<nat n]). h < i"
    using h by auto
  have len_lo: "length (range_py h) = nat h"
    by (simp add: range_py_def)
  have len_hi: "Suc (length (map int [Suc (nat h)..<nat n])) = nat n - nat h"
    using h by simp
  have second: "evaluate_games play h (h # map int [Suc (nat h)..<nat n]) (w, old, new, s1) =
           (case play_all_spec play (replicate (nat n - nat h) (new, old)) s1 of
              None \<Rightarrow> None
            | Some (results, s') \<Rightarrow>
                Some (w + int (length (filter (\<lambda>r. r = 1) results)), new, old, s'))" for w s1
    unfolding evaluate_games_swap [OF hi] len_hi ..
  have first: "evaluate_games play h (range_py h) (0, old, new, s) =
           (case play_all_spec play (replicate (nat h) (old, new)) s of
              None \<Rightarrow> None
            | Some (results, s') \<Rightarrow>
                Some (0 + int (length (filter (\<lambda>r. r = - 1) results)), old, new, s'))"
    unfolding evaluate_games_before_swap [OF lo] len_lo ..
  have split: "evaluate_games play h (range_py n) (0, old, new, s) =
      (case evaluate_games play h (range_py h) (0, old, new, s) of
         None \<Rightarrow> None
       | Some st \<Rightarrow> evaluate_games play h (h # map int [Suc (nat h)..<nat n]) st)"
    by (simp only: range_py_split [OF h] evaluate_games_append)
  have "evaluate_games play h (range_py n) (0, old, new, s) =
      (case play_all_spec play (replicate (nat h) (old, new)) s of
         None \<Rightarrow> None
       | Some (results1, s1) \<Rightarrow>
           (case play_all_spec play (replicate (nat n - nat h) (new, old)) s1 of
              None \<Rightarrow> None
            | Some (results2, s2) \<Rightarrow>
                Some (0 + int (length (filter (\<lambda>r. r = - 1) results1)) +
                      int (length (filter (\<lambda>r. r = 1) results2)), new, old, s2)))"
  proof (cases "play_all_spec play (replicate (nat h) (old, new)) s")
    case None
    then show ?thesis by (simp only: split first option.case)
  next
    case (Some p)
    obtain results1 s1 where p: "p = (results1, s1)" by (cases p)
    show ?thesis
      by (simp only: split first Some p option.case prod.case second)
  qed
  then show ?thesis
    by (simp add: candidate_wins_spec_def role_halves_spec_def h_def [symmetric]
          split: option.splits)
qed

lemma evaluate_by_wins:
  "evaluate T old_model new_model s =
     (case candidate_wins_spec (play_game T) (num_evaluate_games (args (self s)))
             old_model new_model s of
        None \<Rightarrow> None
      | Some (wins, s') \<Rightarrow>
          Some (accept wins (num_evaluate_games (args (self s)))
                  (evaluation_threshold (args (self s))), s'))"
proof -
  let ?n = "num_evaluate_games (args (self s))"
  let ?loop = "evaluate_games (play_game T) (?n div 2) (range_py ?n) (0, old_model, new_model, s)"
  have wins: "map_option (\<lambda>(w, f, g, s'). (w, s')) ?loop =
              candidate_wins_spec (play_game T) ?n old_model new_model s"
    by (rule evaluate_games_wins)
  show ?thesis
  proof (cases ?loop)
    case None
    then have "candidate_wins_spec (play_game T) ?n old_model new_model s = None"
      using wins by simp
    then show ?thesis
      using None by (simp add: evaluate_def)
  next
    case (Some st)
    obtain w f g s' where st: "st = (w, f, g, s')" by (cases st)
    have "same_but_world s s'"
      using evaluate_games_frame [where play = "play_game T"] play_game_frame Some st
      by blast
    then have self: "self s' = self s"
      by (rule same_but_world_self)
    have "candidate_wins_spec (play_game T) ?n old_model new_model s = Some (w, s')"
      using wins Some st by simp
    then show ?thesis
      using Some st self by (simp add: evaluate_def)
  qed
qed

subsection \<open>The division of line 110\<close>

lemma truediv_positive:
  assumes "0 < a" and "0 < b"
    and "e0 = int (bit_length (nat a)) - int (bit_length (nat b))"
    and "e = (if pow2 e0 * of_int b \<le> of_int a then e0 else e0 - 1)"
    and "- 1022 \<le> e" and "e \<le> 52"
    and "m = round_half_even (nat a * 2 ^ nat (52 - e)) (nat b)"
    and "of_nat m * pow2 (e - 52) < pow2 1024"
  shows "truediv a b = Inr (of_nat m * pow2 (e - 52))"
proof -
  have abs: "nat \<bar>a\<bar> = nat a" "nat \<bar>b\<bar> = nat b" "of_nat (nat a) = (of_int a :: rat)"
    "of_nat (nat b) = (of_int b :: rat)"
    using assms(1,2) by simp_all
  have k: "52 - max e (- 1022) = 52 - e" "0 \<le> 52 - e" "- (52 - e) = e - 52"
    using assms(5,6) by simp_all
  show ?thesis
    unfolding truediv_def Let_def abs assms(3) [symmetric] assms(4) [symmetric] k
    using assms(1,2,7,8) k(2) by simp
qed

lemma truediv_11_20: "truediv 11 20 = Inr float_0_55"
proof -
  have "truediv 11 20 = Inr (of_nat 4953959590107546 * pow2 (- 1 - 52))"
    by (rule truediv_positive [where ?e0.0 = "- 1"])
       (simp_all add: bit_length.simps pow2_def round_half_even_def Let_def)
  then show ?thesis by (simp add: pow2_def float_0_55_def)
qed


lemma truediv_55_100: "truediv 55 100 = Inr float_0_55"
proof -
  have "truediv 55 100 = Inr (of_nat 4953959590107546 * pow2 (- 1 - 52))"
    by (rule truediv_positive [where ?e0.0 = "- 1"])
       (simp_all add: bit_length.simps pow2_def round_half_even_def Let_def)
  then show ?thesis by (simp add: pow2_def float_0_55_def)
qed

lemma truediv_10_20: "truediv 10 20 = Inr (1 / 2)"
proof -
  have "truediv 10 20 = Inr (of_nat 4503599627370496 * pow2 (- 1 - 52))"
    by (rule truediv_positive [where ?e0.0 = "- 1"])
       (simp_all add: bit_length.simps pow2_def round_half_even_def Let_def)
  then show ?thesis by (simp add: pow2_def)
qed

lemma truediv_by_zero: "truediv a 0 = Inl ZeroDivisionError"
  by (simp add: truediv_def)

lemma truediv_of_zero: "b \<noteq> 0 \<Longrightarrow> truediv 0 b = Inr 0"
  by (simp add: truediv_def)

lemma bit_length_mono: "x \<le> y \<Longrightarrow> bit_length x \<le> bit_length y"
proof (induction x arbitrary: y rule: bit_length.induct)
  case (1 x)
  show ?case
  proof (cases "x = 0")
    case True
    then show ?thesis by (simp add: bit_length.simps [of 0])
  next
    case False
    then have y: "y \<noteq> 0" using "1.prems" by simp
    have "bit_length (x div 2) \<le> bit_length (y div 2)"
      using "1.IH" [OF False] "1.prems" by (simp add: div_le_mono)
    then show ?thesis
      using False y by (simp add: bit_length.simps [of x] bit_length.simps [of y])
  qed
qed

lemma round_half_even_le: "round_half_even num den \<le> num div den + 1"
  by (simp add: round_half_even_def Let_def)

lemma truediv_unit_interval:
  assumes "0 \<le> a" and "a \<le> b" and "0 < b"
  shows "\<exists>q. truediv a b = Inr q \<and> 0 \<le> q"
proof (cases "a = 0")
  case True
  then show ?thesis using assms by (simp add: truediv_of_zero)
next
  case False
  define x where "x = nat \<bar>a\<bar>"
  define y where "y = nat \<bar>b\<bar>"
  define e0 where "e0 = int (bit_length x) - int (bit_length y)"
  define e where "e = (if pow2 e0 * of_nat y \<le> (of_nat x :: rat) then e0 else e0 - 1)"
  define k where "k = 52 - max e (- 1022)"
  define m where "m = round_half_even (x * 2 ^ nat k) y"
  have xy: "x \<le> y" "0 < y"
    using assms by (simp_all add: x_def y_def)
  have "e0 \<le> 0"
    using bit_length_mono [OF xy(1)] by (simp add: e0_def)
  then have "e \<le> 0" by (simp add: e_def)
  then have k: "52 \<le> k" by (simp add: k_def)
  then have k0: "0 \<le> k" "\<not> 0 \<le> - k" by simp_all
  have "(x * 2 ^ nat k) div y \<le> (y * 2 ^ nat k) div y"
    using xy by (intro div_le_mono mult_le_mono1)
  then have "m \<le> 2 ^ nat k + 1"
    using round_half_even_le [of "x * 2 ^ nat k" y] xy by (simp add: m_def)
  then have "(of_nat m :: rat) \<le> of_nat (2 ^ nat k + 1)"
    by (simp only: of_nat_le_iff)
  then have "(of_nat m :: rat) / 2 ^ nat k \<le> (2 ^ nat k + 1) / 2 ^ nat k"
    by (simp add: divide_right_mono)
  also have "\<dots> = 1 + 1 / 2 ^ nat k"
    by (simp add: add_divide_distrib)
  also have "\<dots> \<le> 2"
    by (simp add: divide_le_eq)
  finally have small: "of_nat m * pow2 (- k) \<le> 2"
    using k0 by (simp add: pow2_def)
  have "(2::rat) ^ 1 < 2 ^ 1024"
    by (rule power_strict_increasing) simp_all
  then have "\<not> pow2 1024 \<le> of_nat m * pow2 (- k)"
    using small by (simp add: pow2_def)
  moreover have "(a < 0) = (b < 0)"
    using assms False by simp
  ultimately have "truediv a b = Inr (of_nat m * pow2 (- k))"
    using False assms(3) k0(1)
    unfolding truediv_def Let_def x_def [symmetric] y_def [symmetric] e0_def [symmetric]
      e_def [symmetric] k_def [symmetric] m_def [symmetric]
    by simp
  moreover have "0 \<le> of_nat m * pow2 (- k)"
    by (simp add: pow2_def)
  ultimately show ?thesis by blast
qed

lemma play_all_spec_length:
  "play_all_spec play games s = Some (results, s') \<Longrightarrow> length results = length games"
  by (induction games arbitrary: s results)
     (auto split: option.splits prod.splits)

lemma candidate_wins_spec_bounds:
  assumes "candidate_wins_spec play n old new s = Some (wins, s')" and "0 \<le> n"
  shows "0 \<le> wins \<and> wins \<le> n"
proof -
  obtain rs1 s1 rs2 where
    one: "play_all_spec play (replicate (nat (n div 2)) (old, new)) s = Some (rs1, s1)" and
    two: "play_all_spec play (replicate (nat n - nat (n div 2)) (new, old)) s1 = Some (rs2, s')" and
    wins: "wins = int (length (filter (\<lambda>r. r = - 1) rs1)) + int (length (filter (\<lambda>r. r = 1) rs2))"
    using assms(1)
    by (auto simp: candidate_wins_spec_def role_halves_spec_def split: option.splits)
  have "length rs1 = nat (n div 2)" "length rs2 = nat n - nat (n div 2)"
    using play_all_spec_length [OF one] play_all_spec_length [OF two] by simp_all
  moreover have "length (filter (\<lambda>r. r = - 1) rs1) \<le> length rs1"
    "length (filter (\<lambda>r. r = 1) rs2) \<le> length rs2"
    by simp_all
  moreover have "nat (n div 2) \<le> nat n"
    using assms(2) by simp
  ultimately have "length (filter (\<lambda>r. r = - 1) rs1) + length (filter (\<lambda>r. r = 1) rs2) \<le> nat n"
    by linarith
  then show ?thesis using wins assms(2) by linarith
qed

subsection \<open>The states of the coordinator\<close>

lemma shared_set_shared [simp]: "shared (set_shared upd s) = upd (shared s)"
  by (simp add: shared_def set_shared_def)

lemma shared_other_updates [simp]:
  "shared (s\<lparr>pc := l\<rparr>) = shared s"
  "shared (s\<lparr>new_model_candidate := m\<rparr>) = shared s"
  "shared (s\<lparr>num_self_play_workers := k\<rparr>) = shared s"
  "shared (s\<lparr>num_training_workers := k\<rparr>) = shared s"
  "shared (s\<lparr>fs := f\<rparr>) = shared s"
  "shared (s\<lparr>world := w\<rparr>) = shared s"
  "shared (s\<lparr>self_play_workers := ws\<rparr>) = shared s"
  "shared (s\<lparr>training_workers := ws\<rparr>) = shared s"
  "shared (s\<lparr>self := (self s)\<lparr>current_model := c\<rparr>\<rparr>) = shared s"
  by (simp_all add: shared_def)

lemma set_shared_fields [simp]:
  "pc (set_shared upd s) = pc s"
  "new_model_candidate (set_shared upd s) = new_model_candidate s"
  "num_self_play_workers (set_shared upd s) = num_self_play_workers s"
  "num_training_workers (set_shared upd s) = num_training_workers s"
  "fs (set_shared upd s) = fs s"
  "world (set_shared upd s) = world s"
  "self_play_workers (set_shared upd s) = self_play_workers s"
  "training_workers (set_shared upd s) = training_workers s"
  by (simp_all add: set_shared_def)

lemma same_but_world_eq: "same_but_world s s' \<Longrightarrow> s' = s\<lparr>world := world s'\<rparr>"
  by (simp add: same_but_world_def)

text \<open>The step of line 55 changes the world and the line only.\<close>

lemma start_step_L55:
  assumes "pc s = L55"
  shows "\<exists>w l. start_step T inp s = s\<lparr>world := w, pc := l\<rparr> \<and>
               (l = L55 \<or> l = L57 \<or> l = L44 \<or> (\<exists>e. l = Raised e))"
proof (cases "evaluate T (current_model (self s)) (new_model_candidate s) s")
  case None
  then have "start_step T inp s = s\<lparr>world := world s, pc := L55\<rparr>"
    using assms by (simp add: start_step_def)
  then show ?thesis by blast
next
  case (Some p)
  obtain r s' where p: "p = (r, s')" by (cases p)
  have s': "s' = s\<lparr>world := world s'\<rparr>"
    using evaluate_frame Some p same_but_world_eq by blast
  show ?thesis
  proof (cases r)
    case (Inl e)
    then have "start_step T inp s = s'\<lparr>pc := Raised e\<rparr>"
      using assms Some p by (simp add: start_step_def)
    then have "start_step T inp s = s\<lparr>world := world s', pc := Raised e\<rparr>"
      using s' by simp
    then show ?thesis by blast
  next
    case (Inr accepted)
    then have "start_step T inp s = s'\<lparr>pc := if accepted then L57 else L44\<rparr>"
      using assms Some p by (simp add: start_step_def)
    then have "start_step T inp s = s\<lparr>world := world s', pc := if accepted then L57 else L44\<rparr>"
      using s' by simp
    then show ?thesis by (cases accepted) auto
  qed
qed

text \<open>The wait of line 71 goes on while both counters are positive, and ends otherwise.\<close>

lemma barrier_wait_step:
  "pc s = L71 \<Longrightarrow>
     pc (start_step T inp s) =
       (if 0 < NUM_SELF_PLAY_WORKERS (shared s) \<and> 0 < NUM_TRAINING_WORKERS (shared s)
        then L71 else L75)"
  by (simp add: start_step_def)

lemma publish_inv_start_step: "publish_inv s \<Longrightarrow> publish_inv (start_step T inp s)"
proof (cases "pc s = L55")
  case True
  assume inv: "publish_inv s"
  obtain w l where step: "start_step T inp s = s\<lparr>world := w, pc := l\<rparr>"
    and l: "l = L55 \<or> l = L57 \<or> l = L44 \<or> (\<exists>e. l = Raised e)"
    using start_step_L55 [OF True] by blast
  have "\<not> signal_set s"
    using inv True by (simp add: publish_inv_def)
  then show ?thesis
    using l by (auto simp: step publish_inv_def signal_set_def)
next
  case False
  assume "publish_inv s"
  then show ?thesis
    using False
    by (cases "pc s")
       (auto simp: publish_inv_def published_def signal_set_def start_step_def
             split: option.splits sum.splits)
qed

lemma publish_inv_workers:
  "publish_inv s \<Longrightarrow> publish_inv (self_play_worker_step i s)"
  "publish_inv s \<Longrightarrow> publish_inv (training_worker_step i s)"
  by (cases "pc s";
      simp add: publish_inv_def published_def signal_set_def self_play_worker_step_def
        training_worker_step_def split: worker.splits)+

lemma publish_inv_run: "publish_inv s \<Longrightarrow> publish_inv (run T evs s)"
proof (induction evs arbitrary: s)
  case Nil
  then show ?case by simp
next
  case (Cons e evs)
  have "publish_inv (step T e s)"
    using Cons.prems by (cases e) (simp_all add: publish_inv_start_step publish_inv_workers)
  then show ?case using Cons.IH by simp
qed

lemma run_append: "run T (xs @ ys) s = run T ys (run T xs s)"
  by (induction xs arbitrary: s) simp_all

subsection \<open>The archive\<close>

lemma decompose_less:
  fixes qa ra qb rb :: nat
  assumes "ra < 10" and "rb < 10"
  shows "(qa < qb \<or> qa = qb \<and> ra < rb) \<longleftrightarrow> 10 * qa + ra < 10 * qb + rb"
  using assms by linarith

lemma divmod_less:
  "(a div 10 < b div 10 \<or> a div 10 = b div 10 \<and> a mod 10 < b mod 10) \<longleftrightarrow> a < b"
  for a b :: nat
  using decompose_less [of "a mod 10" "b mod 10" "a div 10" "b div 10"] by simp

lemma divmod_eq: "(a div 10 = b div 10 \<and> a mod 10 = b mod 10) \<longleftrightarrow> a = b" for a b :: nat
  by (metis div_mult_mod_eq)

lemma digit_cases:
  assumes "d < 10"
  shows "d = 0 \<or> d = 1 \<or> d = 2 \<or> d = 3 \<or> d = 4 \<or> d = 5 \<or> d = 6 \<or> d = 7 \<or> d = 8 \<or> d = (9::nat)"
  using assms by arith

lemma of_char_digit: "d < 10 \<Longrightarrow> of_char (digit d) = 48 + d"
  using digit_cases [of d] by (auto simp: digit_def)

lemma digit_less: "a < 10 \<Longrightarrow> b < 10 \<Longrightarrow> digit a < digit b \<longleftrightarrow> a < b"
  by (simp add: less_char_def of_char_digit)

lemma digit_eq: "a < 10 \<Longrightarrow> b < 10 \<Longrightarrow> digit a = digit b \<longleftrightarrow> a = b"
  by (metis of_char_digit add_left_cancel)

lemma append_less_same_length:
  fixes xs ys :: "'a::linorder list"
  assumes "length xs = length ys"
  shows "xs @ us < ys @ vs \<longleftrightarrow> xs < ys \<or> xs = ys \<and> us < vs"
  using assms by (induction xs ys rule: list_induct2) auto

lemma decimal_digit: "n < 10 \<Longrightarrow> decimal n = [digit n]"
  by (subst decimal.simps) simp

lemma decimal_step: "\<not> n < 10 \<Longrightarrow> decimal n = decimal (n div 10) @ [digit (n mod 10)]"
  by (subst decimal.simps) simp

lemma decimal_not_Nil: "decimal n \<noteq> []"
  by (cases "n < 10") (simp_all add: decimal_digit decimal_step)

lemma length_decimal_one: "length (decimal n) = Suc 0 \<longleftrightarrow> n < 10"
  by (cases "n < 10") (simp_all add: decimal_digit decimal_step decimal_not_Nil)

lemma decimal_order:
  "length (decimal a) = length (decimal b) \<Longrightarrow>
     (decimal a < decimal b \<longleftrightarrow> a < b) \<and> (decimal a = decimal b \<longleftrightarrow> a = b)"
proof (induction a arbitrary: b rule: decimal.induct)
  case (1 a)
  show ?case
  proof (cases "a < 10")
    case True
    then have "length (decimal a) = Suc 0" by (simp add: length_decimal_one)
    then have "length (decimal b) = Suc 0" using "1.prems" by simp
    then have b: "b < 10" by (simp add: length_decimal_one)
    show ?thesis
      using True b by (simp add: decimal_digit digit_less digit_eq)
  next
    case False
    then have "length (decimal a) \<noteq> Suc 0" by (simp add: length_decimal_one)
    then have "length (decimal b) \<noteq> Suc 0" using "1.prems" by simp
    then have b: "\<not> b < 10" by (simp add: length_decimal_one)
    have len: "length (decimal (a div 10)) = length (decimal (b div 10))"
      using "1.prems" by (simp add: decimal_step False b)
    have IH: "(decimal (a div 10) < decimal (b div 10) \<longleftrightarrow> a div 10 < b div 10) \<and>
              (decimal (a div 10) = decimal (b div 10) \<longleftrightarrow> a div 10 = b div 10)"
      using "1.IH" [OF False len] .
    have "decimal a < decimal b \<longleftrightarrow>
            a div 10 < b div 10 \<or> a div 10 = b div 10 \<and> a mod 10 < b mod 10"
      by (simp add: decimal_step False b append_less_same_length [OF len] IH digit_less)
    moreover have "decimal a = decimal b \<longleftrightarrow> a div 10 = b div 10 \<and> a mod 10 = b mod 10"
      using len by (simp add: decimal_step False b IH digit_eq)
    ultimately show ?thesis
      by (simp only: divmod_less divmod_eq)
  qed
qed

lemma length_decimal_year: "1000 \<le> y \<Longrightarrow> y \<le> 9999 \<Longrightarrow> length (decimal y) = 4"
proof -
  assume "1000 \<le> y" and "y \<le> 9999"
  then have "\<not> y < 10" "\<not> y div 10 < 10" "\<not> y div 10 div 10 < 10" "y div 10 div 10 div 10 < 10"
    by (simp_all add: not_less less_eq_div_iff_mult_less_eq div_less_iff_less_mult)
  then show ?thesis
    by (simp add: decimal_step decimal_digit)
qed

lemma pad2_two_digits: "n < 100 \<Longrightarrow> pad2 n = [digit (n div 10), digit (n mod 10)]"
proof (cases "n < 10")
  case True
  then show ?thesis by (simp add: pad2_def decimal_digit digit_def)
next
  case False
  assume "n < 100"
  then have "n div 10 < 10" by (simp add: div_less_iff_less_mult)
  then show ?thesis using False by (simp add: pad2_def decimal_step decimal_digit)
qed

lemma pad2_order:
  assumes "a < 100" and "b < 100"
  shows "(pad2 a < pad2 b \<longleftrightarrow> a < b) \<and> (pad2 a = pad2 b \<longleftrightarrow> a = b)"
proof -
  have "a div 10 < 10" "b div 10 < 10"
    using assms by (simp_all add: div_less_iff_less_mult)
  then have "(pad2 a < pad2 b \<longleftrightarrow>
               a div 10 < b div 10 \<or> a div 10 = b div 10 \<and> a mod 10 < b mod 10) \<and>
             (pad2 a = pad2 b \<longleftrightarrow> a div 10 = b div 10 \<and> a mod 10 = b mod 10)"
    using assms by (simp add: pad2_two_digits digit_less digit_eq)
  then show ?thesis
    by (simp only: divmod_less divmod_eq)
qed


lemma hd_decimal: "\<exists>d<10. hd (decimal n) = digit d"
proof (induction n rule: decimal.induct)
  case (1 n)
  show ?case
  proof (cases "n < 10")
    case True
    then show ?thesis by (auto simp: decimal_digit)
  next
    case False
    then show ?thesis
      using "1.IH" by (simp add: decimal_step decimal_not_Nil)
  qed
qed

lemma digit_not_slash: "d < 10 \<Longrightarrow> digit d \<noteq> CHR ''/''"
  using digit_cases [of d] by (auto simp: digit_def)

lemma strftime_head: "strftime t \<noteq> [] \<and> hd (strftime t) \<noteq> CHR ''/''"
proof -
  obtain d where "d < 10" and "hd (decimal (tm_year t)) = digit d"
    using hd_decimal by blast
  then show ?thesis
    by (simp add: strftime_def decimal_not_Nil digit_not_slash)
qed

lemma os_path_join_file_name:
  "os_path_join (''../../'' @ path) (strftime t @ ''.pt'') =
     (''../../'' @ path) @ (if last (''../../'' @ path) = CHR ''/'' then [] else ''/'') @
     strftime t @ ''.pt''"
  using strftime_head [of t] by (simp add: os_path_join_def)

lemma file_path_not_dir:
  "os_path_join (''../../'' @ path) (strftime t @ ''.pt'') \<noteq> ''../../'' @ path"
  by (simp only: os_path_join_file_name) simp

lemma length_pad2: "n < 100 \<Longrightarrow> length (pad2 n) = 2"
  by (simp add: pad2_two_digits)

lemma strftime_order:
  assumes "gmtime_ranges t" and "gmtime_ranges t'"
  shows "(strftime t < strftime t' \<longleftrightarrow> time_fields t < time_fields t') \<and>
         (strftime t = strftime t' \<longleftrightarrow> time_fields t = time_fields t') \<and>
         length (strftime t) = length (strftime t')"
proof -
  have len_y: "length (decimal (tm_year t)) = 4" "length (decimal (tm_year t')) = 4"
    using assms by (simp_all add: gmtime_ranges_def length_decimal_year)
  then have len_yy: "length (decimal (tm_year t)) = length (decimal (tm_year t'))"
    by simp
  note y = decimal_order [OF len_yy]
  have small: "tm_mon t < 100" "tm_mon t' < 100" "tm_mday t < 100" "tm_mday t' < 100"
    "tm_hour t < 100" "tm_hour t' < 100" "tm_min t < 100" "tm_min t' < 100"
    "tm_sec t < 100" "tm_sec t' < 100"
    using assms by (simp_all add: gmtime_ranges_def)
  note m = pad2_order [OF small(1,2)]
  note d = pad2_order [OF small(3,4)]
  note H = pad2_order [OF small(5,6)]
  note M = pad2_order [OF small(7,8)]
  note S = pad2_order [OF small(9,10)]
  have len2: "length (pad2 (tm_mon t)) = length (pad2 (tm_mon t'))"
    "length (pad2 (tm_mday t)) = length (pad2 (tm_mday t'))"
    "length (pad2 (tm_hour t)) = length (pad2 (tm_hour t'))"
    "length (pad2 (tm_min t)) = length (pad2 (tm_min t'))"
    "length (pad2 (tm_sec t)) = length (pad2 (tm_sec t'))"
    using small by (simp_all add: length_pad2)
  have less: "strftime t < strftime t' \<longleftrightarrow> time_fields t < time_fields t'"
    by (simp add: strftime_def time_fields_def append_less_same_length len_yy len2 y m d H M S)
  have eq: "strftime t = strftime t' \<longleftrightarrow> time_fields t = time_fields t'"
    by (simp add: strftime_def time_fields_def len_yy len2 y m d H M S)
  have "length (strftime t) = length (strftime t')"
    by (simp add: strftime_def len_yy len2)
  then show ?thesis using less eq by simp
qed

lemma file_name_order:
  assumes "gmtime_ranges t" and "gmtime_ranges t'"
  shows "(strftime t @ ''.pt'' < strftime t' @ ''.pt'' \<longleftrightarrow> time_fields t < time_fields t') \<and>
         (strftime t @ ''.pt'' = strftime t' @ ''.pt'' \<longleftrightarrow> time_fields t = time_fields t')"
  using strftime_order [OF assms] by (simp add: append_less_same_length)

lemma save_accepted_model_result:
  assumes "''../../'' @ path \<notin> dom (files f)"
    and "os_path_join (''../../'' @ path) (strftime t @ ''.pt'') \<notin> dirs f"
  shows "save_accepted_model t path model f =
           Inr (None,
                f\<lparr>dirs := insert (''../../'' @ path) (dirs f),
                  files := (files f)(os_path_join (''../../'' @ path) (strftime t @ ''.pt'')
                             \<mapsto> state_dict model)\<rparr>)"
  using assms file_path_not_dir [of path t]
  by (simp add: save_accepted_model_def makedirs_def torch_save_def Let_def)

subsection \<open>The concrete program\<close>

lemma demo_evaluator_fields [simp]:
  "device (demo_evaluator n t) = ''cuda''"
  "shared_variables (demo_evaluator n t) = demo_shared"
  "current_model (demo_evaluator n t) = incumbent_model"
  "args (demo_evaluator n t) = demo_args n t"
  by (simp_all add: demo_evaluator_def)

lemma demo_play_game:
  assumes "self s = demo_evaluator n t"
  shows "play_game demo_torch first_player second_player s =
           Some (result_value (case world s of [] \<Rightarrow> ''0-1'' | r # rest \<Rightarrow> r),
                 s\<lparr>world := (case world s of [] \<Rightarrow> [] | r # rest \<Rightarrow> rest)\<rparr>)"
  using assms
  by (cases "world s")
     (simp_all add: play_game_def play_loop.simps play_turn_def call_def demo_torch_def
        demo_evaluator_def one_move_game_def)

lemma demo_play_all_default:
  assumes "self s = demo_evaluator n t" and "world s = []"
  shows "play_all_spec (play_game demo_torch) (replicate k (f, g)) s =
           Some (replicate k (- 1), s)"
proof (induction k)
  case 0
  then show ?case by simp
next
  case (Suc k)
  have "play_game demo_torch f g s = Some (- 1, s)"
    using assms by (simp add: demo_play_game result_value_def)
  then show ?case by (simp add: Suc)
qed

lemma demo_wins_default:
  assumes "self s = demo_evaluator n t" and "world s = []" and "0 \<le> k"
  shows "candidate_wins_spec (play_game demo_torch) k old new s = Some (k div 2, s)"
  using assms
  by (simp add: candidate_wins_spec_def role_halves_spec_def demo_play_all_default)

lemma demo_evaluate_default:
  assumes "self s = demo_evaluator n t" and "world s = []" and "0 \<le> n"
  shows "evaluate demo_torch old new s = Some (accept (n div 2) n t, s)"
  using assms by (simp add: evaluate_by_wins demo_wins_default demo_args_def)

lemma demo_wins_eleven:
  assumes "self s = demo_evaluator n t" and "world s = eleven_wins"
  shows "candidate_wins_spec (play_game demo_torch) 20 old new s = Some (11, s\<lparr>world := []\<rparr>)"
  using assms
  by (simp add: candidate_wins_spec_def role_halves_spec_def demo_play_game result_value_def
        eleven_wins_def eval_nat_numeral)

lemma demo_wins_ten:
  assumes "self s = demo_evaluator n t" and "world s = ten_wins"
  shows "candidate_wins_spec (play_game demo_torch) 20 old new s = Some (10, s\<lparr>world := []\<rparr>)"
  using assms
  by (simp add: candidate_wins_spec_def role_halves_spec_def demo_play_game result_value_def
        ten_wins_def eval_nat_numeral)

lemma accept_10_20: "accept 10 20 t = Inr (t \<le> 1 / 2)"
  by (simp add: accept_def truediv_10_20)

lemma evaluating_state_eq:
  "evaluating_state n t =
     (demo_state n t [])\<lparr>new_model_candidate := candidate_model, pc := L55\<rparr>"
  by (simp add: evaluating_state_def start_step_def demo_state_def arrival_def to_device_def
        candidate_model_def)

lemma demo_step_L55:
  "start_step demo_torch inp (evaluating_state 20 t) =
     (evaluating_state 20 t)\<lparr>pc := if t \<le> 1 / 2 then L57 else L44\<rparr>"
proof -
  have "evaluate demo_torch incumbent_model candidate_model (evaluating_state 20 t) =
          Some (accept (20 div 2) 20 t, evaluating_state 20 t)"
    by (rule demo_evaluate_default) (simp_all add: evaluating_state_eq demo_state_def)
  then show ?thesis
    by (simp add: start_step_def accept_10_20) (simp add: evaluating_state_eq demo_state_def)
qed

lemma demo_reaches_barrier:
  "run demo_torch accept_events (demo_state 20 (1 / 2) []) =
     \<lparr>self = (demo_evaluator 20 (1 / 2))
         \<lparr>shared_variables := demo_shared\<lparr>MODEL_STATE_DICT := 1, SELF_PLAY_SIGNAL := 1, TRAINING_SIGNAL := 1\<rparr>,
          current_model := incumbent_model\<lparr>state_dict := 1\<rparr>\<rparr>,
      pc = L71, new_model_candidate = candidate_model,
      num_self_play_workers = 2, num_training_workers = 1, fs = empty_fs,
      world = [], self_play_workers = [Idle, Idle], training_workers = [Idle]\<rparr>"
proof -
  have "run demo_torch accept_events (demo_state 20 (1 / 2) []) =
        run demo_torch [tick, tick, tick, tick, tick, tick]
          ((evaluating_state 20 (1 / 2))\<lparr>pc := L57\<rparr>)"
    using demo_step_L55 [of timeout "1 / 2"]
    by (simp add: accept_events_def tick_def evaluating_state_def)
  then show ?thesis
    by (simp add: evaluating_state_eq tick_def demo_state_def start_step_def timeout_def
          load_state_dict_def candidate_model_def set_shared_def shared_def demo_shared_def)
qed

lemma demo_training_only:
  "run demo_torch training_only_events (demo_state 20 (1 / 2) []) =
     \<lparr>self = (demo_evaluator 20 (1 / 2))
         \<lparr>shared_variables := demo_shared\<lparr>MODEL_STATE_DICT := 1, NUM_TRAINING_WORKERS := 0\<rparr>,
          current_model := incumbent_model\<lparr>state_dict := 1\<rparr>\<rparr>,
      pc = L79, new_model_candidate = candidate_model,
      num_self_play_workers = 2, num_training_workers = 1, fs = empty_fs,
      world = [], self_play_workers = [Idle, Idle], training_workers = [Updated]\<rparr>"
  by (simp add: training_only_events_def run_append demo_reaches_barrier tick_def start_step_def
        timeout_def set_shared_def shared_def self_play_worker_step_def training_worker_step_def
        demo_shared_def)

lemma strftime_demo_time: "strftime demo_time = ''2023-04-09_07-30-05''"
  by (simp add: strftime_def demo_time_def pad2_def decimal.simps digit_def)

lemma save_demo:
  "save_accepted_model demo_time ''accepted'' candidate_model empty_fs =
     Inr (None, archive_fs)"
  by (simp add: save_accepted_model_def makedirs_def torch_save_def strftime_demo_time
        os_path_join_def empty_fs_def archive_fs_def candidate_model_def)

lemma demo_late_decrement:
  "run demo_torch late_decrement_events (demo_state 20 (1 / 2) []) =
     \<lparr>self = (demo_evaluator 20 (1 / 2))
         \<lparr>shared_variables := demo_shared\<lparr>MODEL_STATE_DICT := 1, NUM_SELF_PLAY_WORKERS := 1\<rparr>,
          current_model := incumbent_model\<lparr>state_dict := 1\<rparr>\<rparr>,
      pc = L44, new_model_candidate = candidate_model,
      num_self_play_workers = 2, num_training_workers = 1, fs = archive_fs,
      world = [], self_play_workers = [Updated, Idle], training_workers = [Updated]\<rparr>"
  by (simp add: late_decrement_events_def run_append demo_reaches_barrier tick_def start_step_def
        timeout_def set_shared_def shared_def self_play_worker_step_def training_worker_step_def
        demo_shared_def demo_args_def save_demo)

section \<open>The claims\<close>

text \<open>
  C1. The claim is that the wait of line 71 ends only when both pending counters are zero,
  so that the signals are not cleared while a counter is positive. The condition of the
  loop is a conjunction: the wait goes on only while both counters are positive, and ends
  as soon as one of them is zero. In the execution below the training worker acknowledges
  and the two self-play workers do not; the coordinator leaves the wait and clears both
  signals while \<open>NUM_SELF_PLAY_WORKERS\<close> is still 2.
\<close>

theorem barrier_exits_with_self_play_pending:
  "pc (run demo_torch training_only_events (demo_state 20 (1 / 2) [])) = L79 \<and>
   SELF_PLAY_SIGNAL (shared (run demo_torch training_only_events (demo_state 20 (1 / 2) []))) = 0 \<and>
   TRAINING_SIGNAL (shared (run demo_torch training_only_events (demo_state 20 (1 / 2) []))) = 0 \<and>
   NUM_SELF_PLAY_WORKERS (shared (run demo_torch training_only_events (demo_state 20 (1 / 2) []))) = 2 \<and>
   NUM_TRAINING_WORKERS (shared (run demo_torch training_only_events (demo_state 20 (1 / 2) []))) = 0"
  by (simp add: demo_training_only shared_def demo_shared_def)

text \<open>
  C2. The claim is that an episode in which the legality check accepts none of the ranked
  actions raises an error and applies no rejected action. In the game below the check
  rejects both ranked actions, 5 and 7; the loop over the candidates ends with the last of
  them, line 144 applies it, and the episode returns a result.
\<close>

theorem play_game_applies_rejected_action:
  "\<not> fst (checkIfValid (game (self no_legal_action_state)) [] 5 []) \<and>
   \<not> fst (checkIfValid (game (self no_legal_action_state)) [] 7 []) \<and>
   choose_action [] None [5, 7] no_legal_action_state = (Some 7, no_legal_action_state) \<and>
   play_loop stubborn_torch [] incumbent_model candidate_model no_legal_action_state =
     Some ([Some 7], no_legal_action_state) \<and>
   play_game stubborn_torch incumbent_model candidate_model no_legal_action_state =
     Some (1, no_legal_action_state)"
  by (simp add: play_game_def play_loop.simps play_turn_def call_def no_legal_action_state_def
        no_legal_action_game_def stubborn_torch_def result_value_def)

text \<open>
  C3. The claim is that \<open>evaluate\<close> returns true if and only if the number of wins divided
  by the number of games is at least the threshold, by an exact comparison of fractions.
  Line 110 compares the double that the division returns: with 11 wins out of 20 and the
  double 0.55 as threshold, which is above 11/20, \<open>evaluate\<close> returns true.
\<close>

theorem evaluate_compares_the_rounded_quotient:
  "candidate_wins_spec (play_game demo_torch) 20 incumbent_model candidate_model
     (scripted_state float_0_55 eleven_wins) =
     Some (11, scripted_state float_0_55 []) \<and>
   evaluate demo_torch incumbent_model candidate_model (scripted_state float_0_55 eleven_wins) =
     Some (Inr True, scripted_state float_0_55 []) \<and>
   evaluation_threshold (args (self (scripted_state float_0_55 eleven_wins))) = float_0_55 \<and>
   \<not> float_0_55 \<le> 11 / 20"
proof -
  have state: "self (scripted_state float_0_55 eleven_wins) = demo_evaluator 20 float_0_55"
    "world (scripted_state float_0_55 eleven_wins) = eleven_wins"
    "(scripted_state float_0_55 eleven_wins)\<lparr>world := []\<rparr> = scripted_state float_0_55 []"
    by (simp_all add: scripted_state_def demo_state_def)
  have wins: "candidate_wins_spec (play_game demo_torch) 20 incumbent_model candidate_model
                (scripted_state float_0_55 eleven_wins) = Some (11, scripted_state float_0_55 [])"
    using demo_wins_eleven [OF state(1,2)] by (simp only: state(3))
  have "accept 11 20 float_0_55 = Inr True"
    by (simp add: accept_def truediv_11_20)
  then have "evaluate demo_torch incumbent_model candidate_model
               (scripted_state float_0_55 eleven_wins) =
             Some (Inr True, scripted_state float_0_55 [])"
    by (simp add: evaluate_by_wins state(1) demo_args_def wins)
  moreover have "\<not> float_0_55 \<le> 11 / 20"
    by (simp add: float_0_55_def)
  ultimately show ?thesis
    using wins by (simp add: state(1) demo_args_def)
qed

text \<open>
  C3, amended. For a tournament of at least one game, \<open>evaluate\<close> returns true if and only
  if the double nearest to the number of wins divided by the number of games, which is what
  Python's division of the two ints returns, is at least the threshold. The division does
  not fail, and the comparison is inclusive: with the double 0.55 as threshold (the value
  of \<open>55 / 100\<close>), 11 wins out of 20 are accepted and 10 wins out of 20 are not.
\<close>

theorem evaluate_threshold:
  assumes "1 \<le> num_evaluate_games (args (self s))"
    and "candidate_wins_spec (play_game T) (num_evaluate_games (args (self s)))
           old_model new_model s = Some (wins, s')"
  shows "(\<exists>q. truediv wins (num_evaluate_games (args (self s))) = Inr q \<and>
              evaluate T old_model new_model s =
                Some (Inr (evaluation_threshold (args (self s)) \<le> q), s')) \<and>
         truediv 55 100 = Inr float_0_55 \<and>
         accept 11 20 float_0_55 = Inr True \<and>
         accept 10 20 float_0_55 = Inr False"
proof -
  let ?n = "num_evaluate_games (args (self s))"
  have "0 \<le> wins \<and> wins \<le> ?n"
    using candidate_wins_spec_bounds [OF assms(2)] assms(1) by simp
  then obtain q where q: "truediv wins ?n = Inr q"
    using truediv_unit_interval [of wins ?n] assms(1) by auto
  then have "evaluate T old_model new_model s =
               Some (Inr (evaluation_threshold (args (self s)) \<le> q), s')"
    by (simp add: evaluate_by_wins assms(2) accept_def)
  moreover have "accept 11 20 float_0_55 = Inr True"
    by (simp add: accept_def truediv_11_20)
  moreover have "accept 10 20 float_0_55 = Inr False"
    by (simp add: accept_def truediv_10_20 float_0_55_def)
  ultimately show ?thesis
    using q truediv_55_100 by blast
qed

theorem evaluate_threshold_witness:
  "1 \<le> num_evaluate_games (args (self (scripted_state float_0_55 ten_wins))) \<and>
   candidate_wins_spec (play_game demo_torch)
     (num_evaluate_games (args (self (scripted_state float_0_55 ten_wins))))
     incumbent_model candidate_model (scripted_state float_0_55 ten_wins) =
     Some (10, scripted_state float_0_55 []) \<and>
   evaluate demo_torch incumbent_model candidate_model (scripted_state float_0_55 ten_wins) =
     Some (Inr False, scripted_state float_0_55 []) \<and>
   1 \<le> num_evaluate_games (args (self (scripted_state (1 / 2) ten_wins))) \<and>
   candidate_wins_spec (play_game demo_torch)
     (num_evaluate_games (args (self (scripted_state (1 / 2) ten_wins))))
     incumbent_model candidate_model (scripted_state (1 / 2) ten_wins) =
     Some (10, scripted_state (1 / 2) []) \<and>
   evaluate demo_torch incumbent_model candidate_model (scripted_state (1 / 2) ten_wins) =
     Some (Inr True, scripted_state (1 / 2) [])"
proof -
  have state: "self (scripted_state t ten_wins) = demo_evaluator 20 t"
    "world (scripted_state t ten_wins) = ten_wins"
    "(scripted_state t ten_wins)\<lparr>world := []\<rparr> = scripted_state t []" for t
    by (simp_all add: scripted_state_def demo_state_def)
  have n: "num_evaluate_games (args (self (scripted_state t ten_wins))) = 20"
    and t: "evaluation_threshold (args (self (scripted_state t ten_wins))) = t" for t
    by (simp_all add: state(1) demo_args_def)
  have games: "1 \<le> num_evaluate_games (args (self (scripted_state t ten_wins)))" for t
    by (simp add: n)
  have wins: "candidate_wins_spec (play_game demo_torch)
                (num_evaluate_games (args (self (scripted_state t ten_wins))))
                incumbent_model candidate_model (scripted_state t ten_wins) =
              Some (10, scripted_state t [])" for t
    using demo_wins_ten [OF state(1,2)] by (simp only: n state(3))
  obtain q where "truediv 10 20 = Inr q"
    and "evaluate demo_torch incumbent_model candidate_model
           (scripted_state float_0_55 ten_wins) =
         Some (Inr (float_0_55 \<le> q), scripted_state float_0_55 [])"
    using evaluate_threshold [OF games wins, of float_0_55, unfolded n t] by blast
  then have low: "evaluate demo_torch incumbent_model candidate_model
               (scripted_state float_0_55 ten_wins) =
             Some (Inr False, scripted_state float_0_55 [])"
    by (simp add: truediv_10_20 float_0_55_def)
  obtain q' where "truediv 10 20 = Inr q'"
    and "evaluate demo_torch incumbent_model candidate_model
           (scripted_state (1 / 2) ten_wins) =
         Some (Inr (1 / 2 \<le> q'), scripted_state (1 / 2) [])"
    using evaluate_threshold [OF games wins, of "1 / 2", unfolded n t] by blast
  then have high: "evaluate demo_torch incumbent_model candidate_model
                (scripted_state (1 / 2) ten_wins) =
              Some (Inr True, scripted_state (1 / 2) [])"
    by (simp add: truediv_10_20)
  show ?thesis
    using games wins low high by blast
qed

text \<open>
  C4. \<open>evaluate\<close> plays the first \<open>numGames div 2\<close> games with the incumbent in the first
  role and the remaining games with the candidate in the first role, one after the other,
  and counts a game for the candidate when the second player wins in the first half or the
  first player wins in the second half: the number of wins of its loop, and the state the
  games leave, are those of the tournament as the specification words it. The two halves
  add up to the number of games, and the second half holds the remainder of an odd number.
\<close>

theorem evaluate_role_halves:
  "map_option (\<lambda>(num_wins, first_player, second_player, s'). (num_wins, s'))
     (evaluate_games play (n div 2) (range_py n) (0, incumbent, candidate, s)) =
     candidate_wins_spec play n incumbent candidate s \<and>
   evaluate T incumbent candidate s =
     (case candidate_wins_spec (play_game T) (num_evaluate_games (args (self s)))
             incumbent candidate s of
        None \<Rightarrow> None
      | Some (wins, s') \<Rightarrow>
          Some (accept wins (num_evaluate_games (args (self s)))
                  (evaluation_threshold (args (self s))), s')) \<and>
   length (fst (role_halves_spec n incumbent candidate)) = nat (n div 2) \<and>
   length (snd (role_halves_spec n incumbent candidate)) = nat n - nat (n div 2) \<and>
   (0 \<le> n \<longrightarrow>
      int (length (fst (role_halves_spec n incumbent candidate))) +
      int (length (snd (role_halves_spec n incumbent candidate))) = n \<and>
      int (length (snd (role_halves_spec n incumbent candidate))) -
      int (length (fst (role_halves_spec n incumbent candidate))) = n mod 2)"
proof -
  have "0 \<le> n \<Longrightarrow> int (nat (n div 2)) + int (nat n - nat (n div 2)) = n"
    by simp
  moreover have "0 \<le> n \<Longrightarrow> int (nat n - nat (n div 2)) - int (nat (n div 2)) = n mod 2"
    by (simp add: nat_diff_distrib' of_nat_diff) presburger
  ultimately show ?thesis
    using evaluate_games_wins [of play n incumbent candidate s]
      evaluate_by_wins [of T incumbent candidate s]
    by (simp add: role_halves_spec_def)
qed

theorem evaluate_role_halves_witness:
  "(0::int) \<le> 5 \<and>
   role_halves_spec 5 incumbent_model candidate_model =
     ([(incumbent_model, candidate_model), (incumbent_model, candidate_model)],
      [(candidate_model, incumbent_model), (candidate_model, incumbent_model),
       (candidate_model, incumbent_model)]) \<and>
   map_option (\<lambda>(num_wins, first_player, second_player, s'). (num_wins, s'))
     (evaluate_games (play_game demo_torch) (5 div 2) (range_py 5)
        (0, incumbent_model, candidate_model, evaluating_state 5 (1 / 2))) =
     Some (2, evaluating_state 5 (1 / 2))"
proof -
  have "candidate_wins_spec (play_game demo_torch) 5 incumbent_model candidate_model
          (evaluating_state 5 (1 / 2)) = Some (5 div 2, evaluating_state 5 (1 / 2))"
    by (rule demo_wins_default) (simp_all add: evaluating_state_eq demo_state_def)
  moreover have "role_halves_spec 5 incumbent_model candidate_model =
     ([(incumbent_model, candidate_model), (incumbent_model, candidate_model)],
      [(candidate_model, incumbent_model), (candidate_model, incumbent_model),
       (candidate_model, incumbent_model)])"
    by (simp add: role_halves_spec_def numeral_eq_Suc)
  ultimately show ?thesis
    using evaluate_role_halves [of "play_game demo_torch" 5 incumbent_model candidate_model
            "evaluating_state 5 (1 / 2)" demo_torch]
    by simp
qed

text \<open>
  C5. The claim is that \<open>save_accepted_model\<close> names the file after the time of the call,
  creates the directory if it is missing, writes the parameters of the model, and returns
  the path of the file. The function has no \<open>return\<close> statement: the call below writes the
  file and evaluates to \<open>None\<close>, not to the path.
\<close>

theorem save_accepted_model_returns_none:
  "save_accepted_model demo_time ''accepted'' candidate_model empty_fs =
     Inr (None, archive_fs) \<and>
   files archive_fs ''../../accepted/2023-04-09_07-30-05.pt'' = Some 1 \<and>
   save_accepted_model demo_time ''accepted'' candidate_model empty_fs \<noteq>
     Inr (Some ''../../accepted/2023-04-09_07-30-05.pt'', archive_fs)"
  by (simp add: save_demo archive_fs_def)

text \<open>
  C5, amended. When the name of the directory is not taken by a file and the name of the
  file is not taken by a directory, \<open>save_accepted_model\<close> adds the directory
  \<open>../../path\<close> (and leaves the directories as they are when it exists already), writes the
  state dict of the model to the file named after the time, to the second, inside that
  directory, and returns \<open>None\<close>. For times in the ranges of \<open>gmtime\<close> the order of the file
  names is the order of the times, and equal names are equal times.
\<close>

theorem save_accepted_model_archives:
  assumes "''../../'' @ path \<notin> dom (files f)"
    and "os_path_join (''../../'' @ path) (strftime t @ ''.pt'') \<notin> dirs f"
  shows "save_accepted_model t path model f =
           Inr (None,
                f\<lparr>dirs := insert (''../../'' @ path) (dirs f),
                  files := (files f)(os_path_join (''../../'' @ path) (strftime t @ ''.pt'')
                             \<mapsto> state_dict model)\<rparr>) \<and>
         (''../../'' @ path \<in> dirs f \<longrightarrow>
            save_accepted_model t path model f =
              Inr (None,
                   f\<lparr>files := (files f)(os_path_join (''../../'' @ path) (strftime t @ ''.pt'')
                                \<mapsto> state_dict model)\<rparr>)) \<and>
         os_path_join (''../../'' @ path) (strftime t @ ''.pt'') =
           (''../../'' @ path) @ (if last (''../../'' @ path) = CHR ''/'' then [] else ''/'') @
           strftime t @ ''.pt'' \<and>
         (gmtime_ranges t \<and> gmtime_ranges t' \<longrightarrow>
            (strftime t @ ''.pt'' < strftime t' @ ''.pt'' \<longleftrightarrow> time_fields t < time_fields t') \<and>
            (strftime t @ ''.pt'' = strftime t' @ ''.pt'' \<longleftrightarrow> time_fields t = time_fields t'))"
proof -
  have result: "save_accepted_model t path model f =
           Inr (None,
                f\<lparr>dirs := insert (''../../'' @ path) (dirs f),
                  files := (files f)(os_path_join (''../../'' @ path) (strftime t @ ''.pt'')
                             \<mapsto> state_dict model)\<rparr>)"
    using assms by (rule save_accepted_model_result)
  have "insert (''../../'' @ path) (dirs f) = dirs f" if "''../../'' @ path \<in> dirs f"
    using that by (rule insert_absorb)
  then have again: "''../../'' @ path \<in> dirs f \<longrightarrow>
            save_accepted_model t path model f =
              Inr (None,
                   f\<lparr>files := (files f)(os_path_join (''../../'' @ path) (strftime t @ ''.pt'')
                                \<mapsto> state_dict model)\<rparr>)"
    using result by simp
  show ?thesis
    using result again os_path_join_file_name [of path t] file_name_order [of t t']
    by blast
qed

theorem save_accepted_model_archives_witness:
  "''../../'' @ ''accepted'' \<notin> dom (files archive_fs) \<and>
   os_path_join (''../../'' @ ''accepted'') (strftime later_time @ ''.pt'') \<notin> dirs archive_fs \<and>
   ''../../'' @ ''accepted'' \<in> dirs archive_fs \<and>
   gmtime_ranges later_time \<and> gmtime_ranges demo_time \<and>
   save_accepted_model later_time ''accepted'' candidate_model archive_fs =
     Inr (None,
          archive_fs\<lparr>files := (files archive_fs)
            (''../../accepted/2023-04-09_07-30-06.pt'' \<mapsto> 1)\<rparr>) \<and>
   strftime demo_time @ ''.pt'' < strftime later_time @ ''.pt''"
proof -
  have name: "strftime later_time = ''2023-04-09_07-30-06''"
    by (simp add: strftime_def later_time_def pad2_def decimal.simps digit_def)
  have path: "os_path_join (''../../'' @ ''accepted'') (strftime later_time @ ''.pt'') =
                ''../../accepted/2023-04-09_07-30-06.pt''"
    by (simp add: name os_path_join_def)
  have free: "''../../'' @ ''accepted'' \<notin> dom (files archive_fs)"
    by (simp add: archive_fs_def)
  have no_dir: "os_path_join (''../../'' @ ''accepted'') (strftime later_time @ ''.pt'')
                  \<notin> dirs archive_fs"
    by (simp only: path) (simp add: archive_fs_def)
  have exists: "''../../'' @ ''accepted'' \<in> dirs archive_fs"
    by (simp add: archive_fs_def)
  have ranges: "gmtime_ranges later_time" "gmtime_ranges demo_time"
    by (simp_all add: gmtime_ranges_def later_time_def demo_time_def)
  have fields: "\<not> time_fields later_time < time_fields demo_time"
    "time_fields later_time \<noteq> time_fields demo_time"
    by (simp_all add: time_fields_def later_time_def demo_time_def)
  note archives = save_accepted_model_archives [OF free no_dir, of candidate_model demo_time]
  have saved: "save_accepted_model later_time ''accepted'' candidate_model archive_fs =
                 Inr (None,
                      archive_fs\<lparr>files := (files archive_fs)
                        (os_path_join (''../../'' @ ''accepted'') (strftime later_time @ ''.pt'')
                           \<mapsto> state_dict candidate_model)\<rparr>)"
    using archives exists by blast
  have "\<not> strftime later_time @ ''.pt'' < strftime demo_time @ ''.pt''"
    and "strftime later_time @ ''.pt'' \<noteq> strftime demo_time @ ''.pt''"
    using archives ranges fields by blast+
  then have order: "strftime demo_time @ ''.pt'' < strftime later_time @ ''.pt''"
    by (simp add: not_less_iff_gr_or_eq)
  have written: "save_accepted_model later_time ''accepted'' candidate_model archive_fs =
                   Inr (None,
                        archive_fs\<lparr>files := (files archive_fs)
                          (''../../accepted/2023-04-09_07-30-06.pt'' \<mapsto> 1)\<rparr>)"
    using saved by (simp only: path) (simp add: candidate_model_def)
  show ?thesis
    using free no_dir exists ranges written order by blast
qed

text \<open>
  C6. The claim is that after a completed promotion both pending counters hold the values
  saved in lines 67 and 68. Since the wait of line 71 ends when one counter is zero, a
  worker of the other class may have seen the signal without having decremented yet. In
  the execution below a self-play worker sees the signal, the training worker
  acknowledges, the coordinator leaves the wait, clears the signals and restores both
  counters (line 80 done), and then the self-play worker decrements: when the promotion is
  complete and the model archived, \<open>NUM_SELF_PLAY_WORKERS\<close> is 1 and the saved value is 2.
\<close>

theorem counters_not_restored_after_late_decrement:
  "pc (run demo_torch late_decrement_events (demo_state 20 (1 / 2) [])) = L44 \<and>
   fs (run demo_torch late_decrement_events (demo_state 20 (1 / 2) [])) = archive_fs \<and>
   SELF_PLAY_SIGNAL (shared (run demo_torch late_decrement_events (demo_state 20 (1 / 2) []))) = 0 \<and>
   TRAINING_SIGNAL (shared (run demo_torch late_decrement_events (demo_state 20 (1 / 2) []))) = 0 \<and>
   num_self_play_workers (run demo_torch late_decrement_events (demo_state 20 (1 / 2) [])) = 2 \<and>
   NUM_SELF_PLAY_WORKERS (shared (run demo_torch late_decrement_events (demo_state 20 (1 / 2) []))) = 1 \<and>
   \<not> restored (run demo_torch late_decrement_events (demo_state 20 (1 / 2) []))"
  by (simp add: demo_late_decrement restored_def shared_def demo_shared_def)

text \<open>
  C7. In every execution that starts at the top of the loop with both signals 0, a state in
  which a signal is set is a state of the accept branch in which \<open>MODEL_STATE_DICT\<close> already
  holds the state dict of the accepted candidate; and when the coordinator is about to set
  the first signal (line 63), the model is written and no signal is set yet.
\<close>

theorem model_published_before_signals:
  assumes "pc s = L44" and "\<not> signal_set s"
  shows "(signal_set (run T evs s) \<longrightarrow>
            published (run T evs s) \<and> in_promotion (pc (run T evs s))) \<and>
         (pc (run T evs s) = L63 \<longrightarrow>
            published (run T evs s) \<and> \<not> signal_set (run T evs s))"
proof -
  have "publish_inv s"
    using assms by (simp add: publish_inv_def)
  then have "publish_inv (run T evs s)"
    by (rule publish_inv_run)
  then show ?thesis
    by (cases "pc (run T evs s)") (auto simp: publish_inv_def in_promotion_def)
qed

theorem model_published_before_signals_witness:
  "pc (demo_state 20 (1 / 2) []) = L44 \<and>
   \<not> signal_set (demo_state 20 (1 / 2) []) \<and>
   signal_set (run demo_torch accept_events (demo_state 20 (1 / 2) [])) \<and>
   published (run demo_torch accept_events (demo_state 20 (1 / 2) [])) \<and>
   MODEL_STATE_DICT (shared (run demo_torch accept_events (demo_state 20 (1 / 2) []))) = 1 \<and>
   pc (run demo_torch accept_events (demo_state 20 (1 / 2) [])) = L71"
proof -
  have start: "pc (demo_state 20 (1 / 2) []) = L44"
    and quiet: "\<not> signal_set (demo_state 20 (1 / 2) [])"
    by (simp_all add: demo_state_def signal_set_def shared_def demo_shared_def)
  have "signal_set (run demo_torch accept_events (demo_state 20 (1 / 2) []))"
    by (simp add: demo_reaches_barrier signal_set_def shared_def)
  then show ?thesis
    using model_published_before_signals [OF start quiet, of demo_torch accept_events]
      start quiet
    by (simp add: demo_reaches_barrier shared_def)
qed

text \<open>
  C8. A call of \<open>evaluate\<close> that returns leaves the state of the program as it was but for
  the world of the collaborators: the evaluator object with its shared variables and its
  current model, the candidate, the file system and the workers are unchanged, whatever
  the number of games and of moves. So the step of line 55 changes neither the evaluator
  object nor the candidate nor the file system; and when \<open>evaluate\<close> returns false, the
  coordinator is back at the top of the loop, so that no line of the accept branch runs
  for the candidate.
\<close>

theorem evaluate_leaves_state:
  "(evaluate T old_model new_model s = Some (r, s') \<longrightarrow> s' = s\<lparr>world := world s'\<rparr>) \<and>
   (pc s = L55 \<longrightarrow>
      self (start_step T inp s) = self s \<and>
      new_model_candidate (start_step T inp s) = new_model_candidate s \<and>
      fs (start_step T inp s) = fs s) \<and>
   (pc s = L55 \<and>
    evaluate T (current_model (self s)) (new_model_candidate s) s = Some (Inr False, s') \<longrightarrow>
      start_step T inp s = s\<lparr>world := world s', pc := L44\<rparr>)"
proof -
  have frame: "s' = s\<lparr>world := world s'\<rparr>"
    if "evaluate T a b s = Some (r, s')" for a b r
    using evaluate_frame [OF that] by (rule same_but_world_eq)
  have step: "self (start_step T inp s) = self s \<and>
      new_model_candidate (start_step T inp s) = new_model_candidate s \<and>
      fs (start_step T inp s) = fs s" if "pc s = L55"
    using start_step_L55 [OF that, of T inp] by auto
  have reject: "start_step T inp s = s\<lparr>world := world s', pc := L44\<rparr>"
    if "pc s = L55"
      and "evaluate T (current_model (self s)) (new_model_candidate s) s = Some (Inr False, s')"
  proof -
    have "start_step T inp s = s'\<lparr>pc := L44\<rparr>"
      using that by (simp add: start_step_def)
    then show ?thesis
      using frame [OF that(2)] by simp
  qed
  show ?thesis
    using frame step reject by blast
qed

theorem evaluate_leaves_state_witness:
  "pc (scripted_state float_0_55 ten_wins) = L55 \<and>
   evaluate demo_torch (current_model (self (scripted_state float_0_55 ten_wins)))
     (new_model_candidate (scripted_state float_0_55 ten_wins))
     (scripted_state float_0_55 ten_wins) =
     Some (Inr False, (scripted_state float_0_55 ten_wins)\<lparr>world := []\<rparr>) \<and>
   start_step demo_torch timeout (scripted_state float_0_55 ten_wins) =
     (scripted_state float_0_55 ten_wins)\<lparr>world := [], pc := L44\<rparr> \<and>
   shared (start_step demo_torch timeout (scripted_state float_0_55 ten_wins)) = demo_shared \<and>
   current_model (self (start_step demo_torch timeout (scripted_state float_0_55 ten_wins))) =
     incumbent_model"
proof -
  let ?s = "scripted_state float_0_55 ten_wins"
  have state: "self ?s = demo_evaluator 20 float_0_55" "world ?s = ten_wins"
    "new_model_candidate ?s = candidate_model"
    by (simp_all add: scripted_state_def demo_state_def)
  have at: "pc ?s = L55"
    by (simp add: scripted_state_def)
  have "accept 10 20 float_0_55 = Inr False"
    by (simp add: accept_def truediv_10_20 float_0_55_def)
  then have no: "evaluate demo_torch (current_model (self ?s)) (new_model_candidate ?s) ?s =
                   Some (Inr False, ?s\<lparr>world := []\<rparr>)"
    using demo_wins_ten [OF state(1,2)]
    by (simp add: evaluate_by_wins state(1) demo_args_def)
  show ?thesis
    using evaluate_leaves_state
      [of demo_torch "current_model (self ?s)" "new_model_candidate ?s" ?s "Inr False"
          "?s\<lparr>world := []\<rparr>" timeout]
      at no
    by (simp add: shared_def state(1))
qed

text \<open>
  C9. When \<open>new_model_queue.get\<close> times out, the iteration of the loop is over: the
  coordinator is at the top of the loop again with the state unchanged, whatever the
  collaborators are (no game is played), and any number of such polls leaves the state as
  it was.
\<close>

theorem empty_queue_is_noop:
  assumes "pc s = L44" and "queue_get inp = None"
  shows "start_step T inp s = s \<and> run T (replicate k (Coordinator inp)) s = s"
proof -
  have one: "start_step T inp s = s"
    using assms by (simp add: start_step_def)
  have "run T (replicate k (Coordinator inp)) s = s"
    by (induction k) (simp_all add: one)
  then show ?thesis
    using one by simp
qed

theorem empty_queue_is_noop_witness:
  "pc (demo_state 20 (1 / 2) []) = L44 \<and>
   queue_get timeout = None \<and>
   start_step demo_torch timeout (demo_state 20 (1 / 2) []) = demo_state 20 (1 / 2) [] \<and>
   run demo_torch [tick, tick, tick] (demo_state 20 (1 / 2) []) = demo_state 20 (1 / 2) []"
proof -
  have start: "pc (demo_state 20 (1 / 2) []) = L44"
    by (simp add: demo_state_def)
  have empty: "queue_get timeout = None"
    by (simp add: timeout_def)
  show ?thesis
    using empty_queue_is_noop [OF start empty, of demo_torch 3] start empty
    by (simp add: tick_def numeral_3_eq_3)
qed

text \<open>
  C10. The claim is that \<open>evaluate\<close> returns a boolean only if \<open>num_evaluate_games\<close> is at
  least 1. With \<open>num_evaluate_games = - 2\<close> the range of the loop is empty, no game is
  played, and line 110 divides 0 by \<open>- 2\<close> without an error: \<open>evaluate\<close> returns true for
  the threshold 0.
\<close>

theorem evaluate_negative_games_returns:
  "num_evaluate_games (args (self (evaluating_state (- 2) 0))) = - 2 \<and>
   evaluate demo_torch incumbent_model candidate_model (evaluating_state (- 2) 0) =
     Some (Inr True, evaluating_state (- 2) 0) \<and>
   \<not> 1 \<le> num_evaluate_games (args (self (evaluating_state (- 2) 0)))"
  by (simp add: evaluate_def range_py_def accept_def truediv_def evaluating_state_eq
        demo_state_def demo_args_def)

text \<open>
  C10, amended. With \<open>num_evaluate_games\<close> equal to 0 the loop of \<open>evaluate\<close> plays no game
  and the division of line 110 raises \<open>ZeroDivisionError\<close>, whatever the models and the
  game are; so a call that returns a boolean has \<open>num_evaluate_games\<close> different from 0.
  With a negative number the loop plays no game either and \<open>evaluate\<close> returns whether the
  threshold is at most 0; with a number of at least 1, \<open>evaluate\<close> returns a boolean
  whenever its games end.
\<close>

theorem evaluate_zero_games:
  "(num_evaluate_games (args (self s)) = 0 \<longrightarrow>
      range_py (num_evaluate_games (args (self s))) = [] \<and>
      evaluate T old_model new_model s = Some (Inl ZeroDivisionError, s)) \<and>
   (evaluate T old_model new_model s = Some (Inr b, s') \<longrightarrow>
      num_evaluate_games (args (self s)) \<noteq> 0) \<and>
   (num_evaluate_games (args (self s)) < 0 \<longrightarrow>
      range_py (num_evaluate_games (args (self s))) = [] \<and>
      evaluate T old_model new_model s =
        Some (Inr (evaluation_threshold (args (self s)) \<le> 0), s)) \<and>
   (1 \<le> num_evaluate_games (args (self s)) \<and>
    candidate_wins_spec (play_game T) (num_evaluate_games (args (self s)))
      old_model new_model s = Some (wins, s') \<longrightarrow>
      (\<exists>accepted. evaluate T old_model new_model s = Some (Inr accepted, s')))"
proof -
  let ?n = "num_evaluate_games (args (self s))"
  have zero: "evaluate T old_model new_model s = Some (Inl ZeroDivisionError, s)" if "?n = 0"
    using that by (simp add: evaluate_def range_py_def accept_def truediv_by_zero)
  have negative: "evaluate T old_model new_model s =
                    Some (Inr (evaluation_threshold (args (self s)) \<le> 0), s)" if "?n < 0"
    using that by (simp add: evaluate_def range_py_def accept_def truediv_of_zero)
  have positive: "\<exists>accepted. evaluate T old_model new_model s = Some (Inr accepted, s')"
    if games: "1 \<le> ?n"
      and wins: "candidate_wins_spec (play_game T) ?n old_model new_model s = Some (wins, s')"
  proof -
    have "0 \<le> wins \<and> wins \<le> ?n"
      using candidate_wins_spec_bounds [OF wins] games by simp
    then obtain q where "truediv wins ?n = Inr q"
      using truediv_unit_interval [of wins ?n] games by auto
    then show ?thesis
      by (simp add: evaluate_by_wins wins accept_def)
  qed
  have "range_py ?n = []" if "?n \<le> 0"
    using that by (simp add: range_py_def)
  then show ?thesis
    using zero negative positive by (cases "?n = 0") auto
qed

theorem evaluate_zero_games_witness:
  "num_evaluate_games (args (self (evaluating_state 0 (1 / 2)))) = 0 \<and>
   evaluate demo_torch incumbent_model candidate_model (evaluating_state 0 (1 / 2)) =
     Some (Inl ZeroDivisionError, evaluating_state 0 (1 / 2)) \<and>
   num_evaluate_games (args (self (evaluating_state (- 2) 0))) < 0 \<and>
   evaluate demo_torch incumbent_model candidate_model (evaluating_state (- 2) 0) =
     Some (Inr True, evaluating_state (- 2) 0) \<and>
   num_evaluate_games (args (self (evaluating_state (- 2) 0))) \<noteq> 0 \<and>
   1 \<le> num_evaluate_games (args (self (evaluating_state 20 (1 / 2)))) \<and>
   candidate_wins_spec (play_game demo_torch)
     (num_evaluate_games (args (self (evaluating_state 20 (1 / 2)))))
     incumbent_model candidate_model (evaluating_state 20 (1 / 2)) =
     Some (10, evaluating_state 20 (1 / 2)) \<and>
   evaluate demo_torch incumbent_model candidate_model (evaluating_state 20 (1 / 2)) =
     Some (Inr True, evaluating_state 20 (1 / 2))"
proof -
  have n: "num_evaluate_games (args (self (evaluating_state k t))) = k"
    and t: "evaluation_threshold (args (self (evaluating_state k t))) = t" for k t
    by (simp_all add: evaluating_state_eq demo_state_def demo_args_def)
  have wins: "candidate_wins_spec (play_game demo_torch)
                (num_evaluate_games (args (self (evaluating_state 20 (1 / 2)))))
                incumbent_model candidate_model (evaluating_state 20 (1 / 2)) =
              Some (10, evaluating_state 20 (1 / 2))"
    using demo_wins_default [of "evaluating_state 20 (1 / 2)" 20 "1 / 2" 20]
    by (simp add: n) (simp add: evaluating_state_eq demo_state_def)
  have yes: "evaluate demo_torch incumbent_model candidate_model (evaluating_state 20 (1 / 2)) =
               Some (Inr True, evaluating_state 20 (1 / 2))"
    using wins by (simp add: evaluate_by_wins n t accept_10_20)
  show ?thesis
    using evaluate_zero_games [of "evaluating_state 0 (1 / 2)" demo_torch incumbent_model
            candidate_model True "evaluating_state 0 (1 / 2)" 0]
          evaluate_zero_games [of "evaluating_state (- 2) 0" demo_torch incumbent_model
            candidate_model True "evaluating_state (- 2) 0" 0]
          wins yes
    by (simp add: n t)
qed

end
